theory Spec2Isabelle
  imports Main
begin

section \<open>Bytes, text and Python values\<close>

text \<open>
  A \<^verbatim>\<open>bytes\<close> object is a list of 8-bit characters. A Python \<^verbatim>\<open>str\<close> is a list of
  Unicode code points (natural numbers), so that \<^verbatim>\<open>encode('iso-8859-1')\<close> and
  \<^verbatim>\<open>encode('utf-8')\<close> can fail as they do in Python.
\<close>

type_synonym bytes = "char list"

type_synonym ustr = "nat list"

abbreviation CR :: char where "CR \<equiv> CHR 0x0D"

abbreviation LF :: char where "LF \<equiv> CHR 0x0A"

definition ascii :: "string \<Rightarrow> ustr" where
  "ascii s = map of_char s"

definition MAX_LINE :: nat where
  "MAX_LINE = 64 * 1024"

definition MAX_HEADERS :: nat where
  "MAX_HEADERS = 100"

text \<open>\<^verbatim>\<open>class HTTPError(Exception)\<close>: status, reason and an optional body text.\<close>

record HTTPError =
  err_status :: int
  err_reason :: ustr
  err_body :: "ustr option"

text \<open>
  The exceptions the modelled code can raise or receive. \<open>OtherExc\<close> is any other
  exception object, one without the attributes of \<open>HTTPError\<close>, told apart by a label.
\<close>

datatype exc =
    HTTPErr HTTPError
  | UnicodeEncodeError
  | ValueError
  | OverflowError
  | MemoryError
  | ConnectionResetError
  | OtherExc ustr

text \<open>\<^verbatim>\<open>class Response\<close>. A header value is whatever the f-string formats: a str or an int.\<close>

datatype pyval = PyStr ustr | PyInt int

record Response =
  resp_status :: int
  resp_reason :: ustr
  resp_headers :: "(ustr \<times> pyval) list option"
  resp_body :: "bytes option"

subsection \<open>Codecs and formatting\<close>

definition decode_latin1 :: "bytes \<Rightarrow> ustr" where
  "decode_latin1 bs = map of_char bs"

definition encode_latin1 :: "ustr \<Rightarrow> exc + bytes" where
  "encode_latin1 s =
     (if list_all (\<lambda>c. c < 256) s then Inr (map char_of s) else Inl UnicodeEncodeError)"

text \<open>Decimal digits of a natural number, most significant first (\<^verbatim>\<open>str(n)\<close>).\<close>

fun digits10 :: "nat \<Rightarrow> ustr" where
  "digits10 n = (if n < 10 then [48 + n] else digits10 (n div 10) @ [48 + n mod 10])"

declare digits10.simps [simp del]

definition str_int :: "int \<Rightarrow> ustr" where
  "str_int i = (if i < 0 then 45 # digits10 (nat (- i)) else digits10 (nat i))"

fun format_val :: "pyval \<Rightarrow> ustr" where
  "format_val (PyStr s) = s"
| "format_val (PyInt i) = str_int i"

section \<open>Response serialization\<close>

text \<open>
  \<^verbatim>\<open>send_response\<close>: the write side of the connection is the list of bytes written so far.
  Every \<^verbatim>\<open>encode\<close> can raise; the exception leaves the function.
\<close>

fun write_headers :: "bytes \<Rightarrow> (ustr \<times> pyval) list \<Rightarrow> exc + bytes" where
  "write_headers wfile [] = Inr wfile"
| "write_headers wfile ((key, val) # rest) =
     (case encode_latin1 (key @ ascii '': '' @ format_val val @ [13, 10]) of
        Inl e \<Rightarrow> Inl e
      | Inr header_line \<Rightarrow> write_headers (wfile @ header_line) rest)"

definition send_response :: "Response \<Rightarrow> exc + bytes" where
  "send_response resp =
     (case encode_latin1
             (ascii ''HTTP/1.1 '' @ str_int (resp_status resp) @ ascii '' '' @
              resp_reason resp @ [13, 10]) of
        Inl e \<Rightarrow> Inl e
      | Inr status_line \<Rightarrow>
          (case (case resp_headers resp of
                   None \<Rightarrow> Inr status_line
                 | Some hs \<Rightarrow> if hs = [] then Inr status_line else write_headers status_line hs) of
             Inl e \<Rightarrow> Inl e
           | Inr wfile \<Rightarrow>
               Inr (case resp_body resp of
                      None \<Rightarrow> wfile @ [CR, LF]
                    | Some b \<Rightarrow> if b = [] then wfile @ [CR, LF] else wfile @ [CR, LF] @ b)))"

subsection \<open>The wire format, as the specification words it\<close>

definition latin1 :: "ustr \<Rightarrow> bytes" where
  "latin1 s = map char_of s"

definition header_line :: "ustr \<times> pyval \<Rightarrow> bytes" where
  "header_line h = latin1 (fst h @ ascii '': '' @ format_val (snd h) @ [13, 10])"

definition serialized :: "Response \<Rightarrow> bytes" where
  "serialized resp =
     latin1 (ascii ''HTTP/1.1 '' @ str_int (resp_status resp) @ ascii '' '' @
             resp_reason resp @ [13, 10]) @
     concat (map header_line (case resp_headers resp of None \<Rightarrow> [] | Some hs \<Rightarrow> hs)) @
     [CR, LF] @
     (case resp_body resp of None \<Rightarrow> [] | Some b \<Rightarrow> b)"

definition is_latin1 :: "ustr \<Rightarrow> bool" where
  "is_latin1 s = list_all (\<lambda>c. c < 256) s"

definition encodable :: "Response \<Rightarrow> bool" where
  "encodable resp =
     (is_latin1 (resp_reason resp) \<and>
      list_all (\<lambda>h. is_latin1 (fst h) \<and> is_latin1 (format_val (snd h)))
        (case resp_headers resp of None \<Rightarrow> [] | Some hs \<Rightarrow> hs))"

section \<open>Request parsing\<close>

subsection \<open>The read side of a connection\<close>

text \<open>
  The read side (\<^verbatim>\<open>conn.makefile('rb')\<close>) is the list of bytes the peer sends before it
  closes the connection. \<^verbatim>\<open>readline(limit)\<close> returns the bytes up to and including the
  first line feed, but at most \<open>limit\<close> bytes, and all that is left at the end of the stream;
  the second component is the rest of the stream.
\<close>

fun readline :: "nat \<Rightarrow> bytes \<Rightarrow> bytes \<times> bytes" where
  "readline limit [] = ([], [])"
| "readline limit (c # cs) =
     (if limit = 0 then ([], c # cs)
      else if c = LF then ([c], cs)
      else (case readline (limit - 1) cs of (l, r) \<Rightarrow> (c # l, r)))"

text \<open>
  \<^verbatim>\<open>read(size)\<close> of a buffered reader on a 64-bit interpreter: \<open>-1\<close> reads to the end of
  the stream and a smaller size raises \<^verbatim>\<open>ValueError\<close>; a size that does not fit the index
  type, or a byte string, raises \<^verbatim>\<open>OverflowError\<close>. The reader allocates the result before
  it reads, so a size above \<open>alloc_max\<close>, the largest byte string the machine can allocate,
  raises \<^verbatim>\<open>MemoryError\<close>. Otherwise at most \<open>size\<close> bytes are returned, fewer when the stream
  ends before.
\<close>

definition read :: "nat \<Rightarrow> int \<Rightarrow> bytes \<Rightarrow> exc + (bytes \<times> bytes)" where
  "read alloc_max n rfile =
     (if n = - 1 then Inr (rfile, [])
      else if n < - (2 ^ 63) \<or> 2 ^ 63 - 34 < n then Inl OverflowError
      else if n < - 1 then Inl ValueError
      else if alloc_max < nat n then Inl MemoryError
      else Inr (take (nat n) rfile, drop (nat n) rfile))"

subsection \<open>Python string operations\<close>

text \<open>The code points \<^verbatim>\<open>str.split()\<close> and \<^verbatim>\<open>int()\<close> treat as whitespace.\<close>

definition is_space :: "nat \<Rightarrow> bool" where
  "is_space c =
     ((9 \<le> c \<and> c \<le> 13) \<or> (28 \<le> c \<and> c \<le> 32) \<or> c = 0x85 \<or> c = 0xA0 \<or> c = 0x1680 \<or>
      (0x2000 \<le> c \<and> c \<le> 0x200A) \<or> c = 0x2028 \<or> c = 0x2029 \<or> c = 0x202F \<or>
      c = 0x205F \<or> c = 0x3000)"

text \<open>\<^verbatim>\<open>str.split()\<close> without arguments: the maximal runs of non-whitespace.\<close>

function split_ws :: "ustr \<Rightarrow> ustr list" where
  "split_ws [] = []"
| "split_ws (c # cs) =
     (if is_space c then split_ws cs
      else (c # takeWhile (\<lambda>x. \<not> is_space x) cs) #
           split_ws (dropWhile (\<lambda>x. \<not> is_space x) cs))"
  by pat_completeness auto
termination
  by (relation "measure length") (auto simp: length_dropWhile_le less_Suc_eq_le)

text \<open>
  \<^verbatim>\<open>str.lower()\<close> on the code points below 256, the only ones a decoded request holds;
  other code points are left as they are.
\<close>

definition lower_cp :: "nat \<Rightarrow> nat" where
  "lower_cp c =
     (if (65 \<le> c \<and> c \<le> 90) \<or> (192 \<le> c \<and> c \<le> 222 \<and> c \<noteq> 215) then c + 32 else c)"

definition lower :: "ustr \<Rightarrow> ustr" where
  "lower s = map lower_cp s"

subsection \<open>The header block parser of the standard library\<close>

text \<open>
  \<^verbatim>\<open>email.parser.Parser().parsestr\<close> is not code of the repository. The model follows
  the header part of the library's feed parser under its default policy: the text is split
  into lines at \<open>CR LF\<close>, \<open>CR\<close> and \<open>LF\<close>; lines are taken while they look like header
  lines; continuation lines are joined to the header before them; the name is the text
  before the first colon, the value the rest without leading blanks and trailing line ends.
  A message is the list of its (name, value) pairs in the order received.
\<close>

type_synonym Message = "(ustr \<times> ustr) list"

fun splitlines :: "ustr \<Rightarrow> ustr \<Rightarrow> ustr list" where
  "splitlines cur [] = (if cur = [] then [] else [cur])"
| "splitlines cur (c # cs) =
     (if c = 10 then (cur @ [c]) # splitlines [] cs
      else if c = 13 then
        (case cs of
           [] \<Rightarrow> [cur @ [c]]
         | d # ds \<Rightarrow> if d = 10 then (cur @ [c, d]) # splitlines [] ds
                    else (cur @ [c]) # splitlines [] cs)
      else splitlines (cur @ [c]) cs)"

definition ftext :: "nat \<Rightarrow> bool" where
  "ftext c = ((33 \<le> c \<and> c \<le> 57) \<or> (59 \<le> c \<and> c \<le> 126))"

definition startswith :: "ustr \<Rightarrow> ustr \<Rightarrow> bool" where
  "startswith s p = (take (length p) s = p)"

text \<open>The library's \<^verbatim>\<open>headerRE\<close>: \<^verbatim>\<open>^(From |[\041-\071\073-\176]*:|[\t ])\<close>.\<close>

definition headerRE_match :: "ustr \<Rightarrow> bool" where
  "headerRE_match line =
     (startswith line (ascii ''From '') \<or>
      (case dropWhile ftext line of [] \<Rightarrow> False | c # _ \<Rightarrow> c = 58) \<or>
      (case line of [] \<Rightarrow> False | c # _ \<Rightarrow> c = 9 \<or> c = 32))"

text \<open>\<^verbatim>\<open>header_source_parse\<close> of the default policy.\<close>

definition rstrip_crlf :: "ustr \<Rightarrow> ustr" where
  "rstrip_crlf s = rev (dropWhile (\<lambda>c. c = 13 \<or> c = 10) (rev s))"

definition header_source_parse :: "ustr list \<Rightarrow> ustr \<times> ustr" where
  "header_source_parse sourcelines =
     (let first = hd sourcelines;
          name = takeWhile (\<lambda>c. c \<noteq> 58) first;
          val = tl (dropWhile (\<lambda>c. c \<noteq> 58) first)
      in (name, rstrip_crlf (dropWhile (\<lambda>c. c = 32 \<or> c = 9) val @ concat (tl sourcelines))))"

text \<open>
  \<^verbatim>\<open>_parse_headers\<close>: \<open>lineno\<close> and \<open>nlines\<close> are the index of the line and the number of lines,
  \<open>lastheader\<close> and \<open>lastvalue\<close> the header being collected. The result is the list of
  headers stored, in order.
\<close>

fun parse_header_lines :: "nat \<Rightarrow> nat \<Rightarrow> ustr \<Rightarrow> ustr list \<Rightarrow> ustr list \<Rightarrow> Message" where
  "parse_header_lines lineno nlines lastheader lastvalue [] =
     (if lastheader \<noteq> [] then [header_source_parse lastvalue] else [])"
| "parse_header_lines lineno nlines lastheader lastvalue (line # rest) =
     (if (case line of [] \<Rightarrow> False | c # _ \<Rightarrow> c = 32 \<or> c = 9) then
        (if lastheader = [] then parse_header_lines (lineno + 1) nlines lastheader lastvalue rest
         else parse_header_lines (lineno + 1) nlines lastheader (lastvalue @ [line]) rest)
      else
        (if lastheader \<noteq> [] then [header_source_parse lastvalue] else []) @
        (if startswith line (ascii ''From '') then
           (if lineno = 0 then parse_header_lines (lineno + 1) nlines [] [] rest
            else if lineno + 1 = nlines then []
            else parse_header_lines (lineno + 1) nlines [] [] rest)
         else if takeWhile (\<lambda>c. c \<noteq> 58) line = [] then
           parse_header_lines (lineno + 1) nlines [] [] rest
         else parse_header_lines (lineno + 1) nlines (takeWhile (\<lambda>c. c \<noteq> 58) line) [line] rest))"

definition parsestr :: "ustr \<Rightarrow> Message" where
  "parsestr text =
     (let headers = takeWhile headerRE_match (splitlines [] text)
      in parse_header_lines 0 (length headers) [] [] headers)"

text \<open>\<^verbatim>\<open>Message.get(name)\<close>: the value of the first header whose lowered name is the lowered \<open>name\<close>.\<close>

fun msg_get :: "Message \<Rightarrow> ustr \<Rightarrow> ustr option" where
  "msg_get [] name = None"
| "msg_get ((k, v) # rest) name = (if lower k = lower name then Some v else msg_get rest name)"

subsection \<open>Requests\<close>

record Request =
  req_method :: ustr
  req_target :: ustr
  req_version :: ustr
  req_headers :: Message
  req_rfile :: bytes

definition parse_request_line :: "bytes \<Rightarrow> exc + ((ustr \<times> ustr \<times> ustr) \<times> bytes)" where
  "parse_request_line rfile =
     (case readline (MAX_LINE + 1) rfile of
        (raw, rfile') \<Rightarrow>
          if length raw > MAX_LINE then
            Inl (HTTPErr \<lparr>err_status = 400, err_reason = ascii ''Bad request'',
                          err_body = Some (ascii ''Request line is too long'')\<rparr>)
          else
            (let words = split_ws (decode_latin1 raw) in
             if length words \<noteq> 3 then
               Inl (HTTPErr \<lparr>err_status = 400, err_reason = ascii ''Bad request'',
                             err_body = Some (ascii ''Malformed request line'')\<rparr>)
             else
               (let method = words ! 0; target = words ! 1; ver = words ! 2 in
                if ver \<noteq> ascii ''HTTP/1.1'' then
                  Inl (HTTPErr \<lparr>err_status = 505,
                                err_reason = ascii ''HTTP Version Not Supported'',
                                err_body = None\<rparr>)
                else Inr ((method, target, ver), rfile'))))"

text \<open>
  One pass through the body of the loop of \<^verbatim>\<open>parse_headers\<close>: how the body is left, and
  the local variables \<open>line\<close>, \<open>headers\<close> and the stream at that point.
\<close>

datatype control = Next | Break | Raise exc

definition headers_iter :: "bytes list \<Rightarrow> bytes \<Rightarrow> control \<times> bytes \<times> bytes list \<times> bytes" where
  "headers_iter headers rfile =
     (case readline (MAX_LINE + 1) rfile of
        (line, rfile') \<Rightarrow>
          if length line > MAX_LINE then
            (Raise (HTTPErr \<lparr>err_status = 494, err_reason = ascii ''Request header too large'',
                             err_body = None\<rparr>), line, headers, rfile')
          else if line = [CR, LF] \<or> line = [LF] \<or> line = [] then (Break, line, headers, rfile')
          else if length (headers @ [line]) > MAX_HEADERS then
            (Raise (HTTPErr \<lparr>err_status = 494, err_reason = ascii ''Too many headers'',
                             err_body = None\<rparr>), line, headers @ [line], rfile')
          else (Next, line, headers @ [line], rfile'))"

function parse_headers_loop :: "bytes list \<Rightarrow> bytes \<Rightarrow> exc + (bytes list \<times> bytes)" where
  "parse_headers_loop headers rfile =
     (case headers_iter headers rfile of
        (Raise e, _) \<Rightarrow> Inl e
      | (Break, _, headers', rfile') \<Rightarrow> Inr (headers', rfile')
      | (Next, _, headers', rfile') \<Rightarrow> parse_headers_loop headers' rfile')"
  by pat_completeness auto
termination
  by (relation "measure (\<lambda>(headers, rfile). MAX_HEADERS + 1 - length headers)")
     (auto simp: headers_iter_def split: prod.splits if_splits)

declare parse_headers_loop.simps [simp del]

definition parse_headers :: "bytes \<Rightarrow> exc + (Message \<times> bytes)" where
  "parse_headers rfile =
     (case parse_headers_loop [] rfile of
        Inl e \<Rightarrow> Inl e
      | Inr (headers, rfile') \<Rightarrow> Inr (parsestr (decode_latin1 (concat headers)), rfile'))"

definition parse_request :: "bytes \<Rightarrow> exc + Request" where
  "parse_request conn =
     (case parse_request_line conn of
        Inl e \<Rightarrow> Inl e
      | Inr ((method, target, ver), rfile1) \<Rightarrow>
          (case parse_headers rfile1 of
             Inl e \<Rightarrow> Inl e
           | Inr (headers, rfile2) \<Rightarrow>
               (case msg_get headers (ascii ''Host'') of
                  None \<Rightarrow>
                    Inl (HTTPErr \<lparr>err_status = 400, err_reason = ascii ''Bad request'',
                                  err_body = Some (ascii ''Host header is missing'')\<rparr>)
                | Some host \<Rightarrow>
                    if host = [] then
                      Inl (HTTPErr \<lparr>err_status = 400, err_reason = ascii ''Bad request'',
                                    err_body = Some (ascii ''Host header is missing'')\<rparr>)
                    else
                      Inr \<lparr>req_method = method, req_target = target, req_version = ver,
                           req_headers = headers, req_rfile = rfile2\<rparr>)))"

subsection \<open>Body access\<close>

text \<open>
  What \<^verbatim>\<open>int\<close> and \<^verbatim>\<open>read\<close> take from the interpreter and the machine: the limit on the
  number of digits of a decimal text (4300 unless changed, 0 for none), the largest byte
  string that can be allocated, and the decimal value that the Unicode database gives to a
  code point above 126, if it has one.
\<close>

record Interp =
  max_str_digits :: nat
  alloc_max :: nat
  unicode_decimal :: "nat \<Rightarrow> nat option"

text \<open>
  \<^verbatim>\<open>int(s)\<close>. Code points above 126 are first replaced: whitespace by a space, a decimal
  digit by its ASCII digit, anything else by a question mark. Then ASCII whitespace is
  dropped at both ends, a sign may lead, and the digits may be grouped by single
  underscores. More than 640 digits are checked against the limit of the interpreter.
\<close>

definition is_ascii_space :: "nat \<Rightarrow> bool" where
  "is_ascii_space c = ((9 \<le> c \<and> c \<le> 13) \<or> c = 32)"

definition to_ascii_decimal :: "(nat \<Rightarrow> nat option) \<Rightarrow> nat \<Rightarrow> nat" where
  "to_ascii_decimal dec c =
     (if c < 127 then c
      else if is_space c then 32
      else (case dec c of Some d \<Rightarrow> if d < 10 then 48 + d else 63 | None \<Rightarrow> 63))"

definition strip :: "ustr \<Rightarrow> ustr" where
  "strip s = rev (dropWhile is_ascii_space (rev (dropWhile is_ascii_space s)))"

definition is_digit :: "nat \<Rightarrow> bool" where
  "is_digit c = (48 \<le> c \<and> c \<le> 57)"

fun digits_ok :: "ustr \<Rightarrow> bool" where
  "digits_ok [] = False"
| "digits_ok [c] = is_digit c"
| "digits_ok (c # d # r) = (is_digit c \<and> (if d = 95 then digits_ok r else digits_ok (d # r)))"

definition nat_of_digits :: "ustr \<Rightarrow> nat" where
  "nat_of_digits ds = foldl (\<lambda>acc c. if c = 95 then acc else 10 * acc + (c - 48)) 0 ds"

definition py_int :: "Interp \<Rightarrow> ustr \<Rightarrow> exc + int" where
  "py_int env s =
     (let t = strip (map (to_ascii_decimal (unicode_decimal env)) s);
          neg = (case t of [] \<Rightarrow> False | c # _ \<Rightarrow> c = 45);
          ds = (case t of [] \<Rightarrow> [] | c # r \<Rightarrow> if c = 45 \<or> c = 43 then r else t);
          ndigits = length (filter (\<lambda>c. c \<noteq> 95) ds)
      in if \<not> digits_ok ds then Inl ValueError
         else if 640 < ndigits \<and> 0 < max_str_digits env \<and> max_str_digits env < ndigits
         then Inl ValueError
         else Inr (if neg then - int (nat_of_digits ds) else int (nat_of_digits ds)))"

text \<open>
  \<^verbatim>\<open>Request.body\<close>: the result is \<open>None\<close> or the bytes read, together with the request
  whose stream has advanced.
\<close>

definition body :: "Interp \<Rightarrow> Request \<Rightarrow> exc + (bytes option \<times> Request)" where
  "body env req =
     (case msg_get (req_headers req) (ascii ''Content-Length'') of
        None \<Rightarrow> Inr (None, req)
      | Some sz \<Rightarrow>
          if sz = [] then Inr (None, req)
          else
            (case py_int env sz of
               Inl e \<Rightarrow> Inl e
             | Inr n \<Rightarrow>
                 (case read (alloc_max env) n (req_rfile req) of
                    Inl e \<Rightarrow> Inl e
                  | Inr (data, rfile') \<Rightarrow> Inr (Some data, req\<lparr>req_rfile := rfile'\<rparr>))))"

section \<open>Error mapping and the connection worker\<close>

text \<open>\<^verbatim>\<open>str.encode('utf-8')\<close>: surrogate code points cannot be encoded.\<close>

definition utf8_cp :: "nat \<Rightarrow> bytes option" where
  "utf8_cp c =
     (if c < 0x80 then Some [char_of c]
      else if c < 0x800 then Some [char_of (0xC0 + c div 64), char_of (0x80 + c mod 64)]
      else if 0xD800 \<le> c \<and> c \<le> 0xDFFF then None
      else if c < 0x10000 then
        Some [char_of (0xE0 + c div 4096), char_of (0x80 + c div 64 mod 64),
              char_of (0x80 + c mod 64)]
      else if c < 0x110000 then
        Some [char_of (0xF0 + c div 262144), char_of (0x80 + c div 4096 mod 64),
              char_of (0x80 + c div 64 mod 64), char_of (0x80 + c mod 64)]
      else None)"

fun encode_utf8 :: "ustr \<Rightarrow> exc + bytes" where
  "encode_utf8 [] = Inr []"
| "encode_utf8 (c # cs) =
     (case utf8_cp c of
        None \<Rightarrow> Inl UnicodeEncodeError
      | Some b \<Rightarrow> (case encode_utf8 cs of Inl e \<Rightarrow> Inl e | Inr bs \<Rightarrow> Inr (b @ bs)))"

text \<open>
  \<^verbatim>\<open>send_error\<close>. The parameter \<open>str_of\<close> is \<^verbatim>\<open>__str__\<close> of the exception objects, which the
  repository does not define. The \<^verbatim>\<open>try\<close> block fails when the exception has no \<^verbatim>\<open>status\<close>
  attribute or when the text cannot be encoded; the bare \<^verbatim>\<open>except\<close> then builds the
  fallback, whose own encoding failure leaves the function.
\<close>

definition error_fallback :: "(exc \<Rightarrow> ustr) \<Rightarrow> exc \<Rightarrow> exc + (int \<times> ustr \<times> bytes)" where
  "error_fallback str_of err =
     (case encode_utf8 (str_of err) of
        Inl e \<Rightarrow> Inl e
      | Inr b \<Rightarrow> Inr (500, ascii ''Internal Server Error'', b))"

definition send_error :: "(exc \<Rightarrow> ustr) \<Rightarrow> exc \<Rightarrow> exc + bytes" where
  "send_error str_of err =
     (case (case err of
              HTTPErr e \<Rightarrow>
                (case encode_utf8
                        (case err_body e of
                           None \<Rightarrow> err_reason e
                         | Some b \<Rightarrow> if b = [] then err_reason e else b) of
                   Inl _ \<Rightarrow> error_fallback str_of err
                 | Inr b \<Rightarrow> Inr (err_status e, err_reason e, b))
            | _ \<Rightarrow> error_fallback str_of err) of
        Inl e \<Rightarrow> Inl e
      | Inr (status, reason, b) \<Rightarrow>
          send_response
            \<lparr>resp_status = status, resp_reason = reason,
             resp_headers = Some [(ascii ''Content-Length'', PyInt (int (length b)))],
             resp_body = Some b\<rparr>)"

text \<open>
  The write side of a connection is a buffered writer with a buffer of 8192 bytes: the pair
  of the bytes sent to the peer and the bytes held in the buffer. A write that fits is
  buffered; otherwise the buffer is sent first, and the data goes to the buffer when it is
  no longer than the buffer and to the peer when it is longer (the socket takes all it is
  given).
\<close>

definition BUFFER_SIZE :: nat where
  "BUFFER_SIZE = 8192"

definition buffered_write :: "bytes \<times> bytes \<Rightarrow> bytes \<Rightarrow> bytes \<times> bytes" where
  "buffered_write w b =
     (case w of
        (sent, buf) \<Rightarrow>
          if length b \<le> BUFFER_SIZE - length buf then (sent, buf @ b)
          else if BUFFER_SIZE < length b then (sent @ buf @ b, [])
          else (sent @ buf, b))"

text \<open>
  What \<^verbatim>\<open>send_response\<close> has written when an \<^verbatim>\<open>encode\<close> raises: the status line and the
  header lines before the one that cannot be encoded.
\<close>

fun header_chunks :: "(ustr \<times> pyval) list \<Rightarrow> bytes list" where
  "header_chunks [] = []"
| "header_chunks ((key, val) # rest) =
     (case encode_latin1 (key @ ascii '': '' @ format_val val @ [13, 10]) of
        Inl e \<Rightarrow> []
      | Inr encoded \<Rightarrow> encoded # header_chunks rest)"

definition chunks_before_failure :: "Response \<Rightarrow> bytes list" where
  "chunks_before_failure resp =
     (case encode_latin1
             (ascii ''HTTP/1.1 '' @ str_int (resp_status resp) @ ascii '' '' @
              resp_reason resp @ [13, 10]) of
        Inl e \<Rightarrow> []
      | Inr status_line \<Rightarrow>
          status_line #
          (case resp_headers resp of None \<Rightarrow> [] | Some hs \<Rightarrow> header_chunks hs))"

definition unfinished_write :: "Response \<Rightarrow> bytes \<times> bytes" where
  "unfinished_write resp = foldl buffered_write ([], []) (chunks_before_failure resp)"

text \<open>
  \<^verbatim>\<open>serve_client\<close>, for a handler that returns a response or raises. The result is what the
  peer receives: nothing after a connection reset, the error response after any other
  exception. When \<^verbatim>\<open>send_response\<close> raises while it writes the response of the handler, its
  writer is still open: what it had sent stands before the error response, and what it
  held in its buffer is sent when the writer is released, after the error response. A result
  \<open>Inl\<close> is an exception that leaves \<^verbatim>\<open>serve_client\<close>; what has been written by then is not
  part of the result.
\<close>

definition serve_client ::
  "(Request \<Rightarrow> exc + Response) \<Rightarrow> (exc \<Rightarrow> ustr) \<Rightarrow> bytes \<Rightarrow> exc + bytes" where
  "serve_client handle_request str_of conn =
     (case parse_request conn of
        Inl ConnectionResetError \<Rightarrow> Inr []
      | Inl e \<Rightarrow> send_error str_of e
      | Inr req \<Rightarrow>
          (case handle_request req of
             Inl ConnectionResetError \<Rightarrow> Inr []
           | Inl e \<Rightarrow> send_error str_of e
           | Inr resp \<Rightarrow>
               (case send_response resp of
                  Inr written \<Rightarrow> Inr written
                | Inl e \<Rightarrow>
                    (case send_error str_of e of
                       Inl e' \<Rightarrow> Inl e'
                     | Inr error_response \<Rightarrow>
                         (case unfinished_write resp of
                            (sent, buf) \<Rightarrow> Inr (sent @ error_response @ buf))))))"

section \<open>Lines of a stream\<close>

text \<open>
  The first line of a stream, with its line feed when it has one, and the lines of a stream:
  what an unlimited \<^verbatim>\<open>readline\<close> would return.
\<close>

definition first_line :: "bytes \<Rightarrow> bytes" where
  "first_line s = takeWhile (\<lambda>c. c \<noteq> LF) s @ take 1 (dropWhile (\<lambda>c. c \<noteq> LF) s)"

function lines_of :: "bytes \<Rightarrow> bytes list" where
  "lines_of s = (if s = [] then [] else first_line s # lines_of (drop (length (first_line s)) s))"
  by pat_completeness auto
termination
proof (relation "measure length")
  show "wf (measure length)" by simp
next
  fix s :: bytes
  assume "s \<noteq> []"
  then have "first_line s \<noteq> []" by (cases s) (simp_all add: first_line_def)
  then have "0 < length (first_line s)" by simp
  moreover from \<open>s \<noteq> []\<close> have "0 < length s" by simp
  ultimately show "(drop (length (first_line s)) s, s) \<in> measure length" by simp
qed

section \<open>Whitespace splitting\<close>

definition blank :: "ustr \<Rightarrow> bool" where
  "blank w = list_all is_space w"

definition token_ok :: "ustr \<Rightarrow> bool" where
  "token_ok t = (t \<noteq> [] \<and> list_all (\<lambda>c. \<not> is_space c) t)"

section \<open>The request line\<close>


definition malformed_line :: exc where
  "malformed_line = HTTPErr \<lparr>err_status = 400, err_reason = ascii ''Bad request'',
                      err_body = Some (ascii ''Malformed request line'')\<rparr>"


definition error_text :: "HTTPError \<Rightarrow> ustr" where
  "error_text e = (case err_body e of None \<Rightarrow> err_reason e
                   | Some b \<Rightarrow> if b = [] then err_reason e else b)"

section \<open>The header block\<close>

declare lines_of.simps [simp del]

definition header_lines :: "bytes \<Rightarrow> bytes list" where
  "header_lines s = takeWhile (\<lambda>l. l \<noteq> [CR, LF] \<and> l \<noteq> [LF]) (lines_of s)"

definition after_headers :: "bytes \<Rightarrow> bytes" where
  "after_headers s = drop (length (concat (take (Suc (length (header_lines s))) (lines_of s)))) s"

definition first_long :: "bytes list \<Rightarrow> nat" where
  "first_long hl = length (takeWhile (\<lambda>l. length l \<le> MAX_LINE) hl)"

definition header_too_large :: exc where
  "header_too_large = HTTPErr \<lparr>err_status = 494, err_reason = ascii ''Request header too large'',
                         err_body = None\<rparr>"

definition too_many_headers :: exc where
  "too_many_headers = HTTPErr \<lparr>err_status = 494, err_reason = ascii ''Too many headers'',
                         err_body = None\<rparr>"

definition loop_spec :: "bytes list \<Rightarrow> bytes \<Rightarrow> exc + (bytes list \<times> bytes)" where
  "loop_spec acc s =
     (if first_long (header_lines s) < length (header_lines s) \<and>
         length acc + first_long (header_lines s) \<le> MAX_HEADERS
      then Inl header_too_large
      else if length acc + length (header_lines s) > MAX_HEADERS then Inl too_many_headers
      else Inr (acc @ header_lines s, after_headers s))"

subsection \<open>Streams built from lines\<close>

definition is_line :: "bytes \<Rightarrow> bool" where
  "is_line l = (l \<noteq> [] \<and> last l = LF \<and> LF \<notin> set (butlast l))"

definition is_blank_line :: "bytes \<Rightarrow> bool" where
  "is_blank_line l = (l = [CR, LF] \<or> l = [LF])"

text \<open>
  Streams at the limits: a request line of 65537 bytes; a header block whose second line has
  65537 bytes; header blocks of 101 and of 100 short lines.
\<close>

definition ex_long_request :: bytes where
  "ex_long_request = replicate 65537 (CHR ''a'')"


definition ex_101_headers :: bytes where
  "ex_101_headers = concat (replicate 101 (''a:b'' @ [LF]))"

definition ex_100_headers :: bytes where
  "ex_100_headers = concat (replicate 100 (''a:b'' @ [LF])) @ [CR, LF] @ ''body''"


section \<open>What the parser buffers\<close>

text \<open>
  The local variables \<open>line\<close> and \<open>headers\<close> of \<^verbatim>\<open>parse_headers\<close> at the end of every pass
  through the body of its loop, in order.
\<close>

function header_states :: "bytes list \<Rightarrow> bytes \<Rightarrow> (bytes \<times> bytes list) list" where
  "header_states headers rfile =
     (case headers_iter headers rfile of
        (Next, line, headers', rfile') \<Rightarrow> (line, headers') # header_states headers' rfile'
      | (_, line, headers', _) \<Rightarrow> [(line, headers')])"
  by pat_completeness auto
termination
  by (relation "measure (\<lambda>(headers, rfile). MAX_HEADERS + 1 - length headers)")
     (auto simp: headers_iter_def split: prod.splits if_splits)

declare header_states.simps [simp del]

definition within :: "bytes \<times> bytes list \<Rightarrow> bool" where
  "within st =
     (length (fst st) \<le> MAX_LINE + 1 \<and> length (snd st) \<le> MAX_HEADERS + 1 \<and>
      list_all (\<lambda>l. length l \<le> MAX_LINE) (snd st))"

section \<open>The Host header\<close>

definition named :: "ustr \<Rightarrow> ustr \<times> ustr \<Rightarrow> bool" where
  "named n h = (lower (fst h) = lower n)"

definition host_values :: "Message \<Rightarrow> ustr list" where
  "host_values msg = map snd (filter (named (ascii ''Host'')) msg)"

definition host_missing :: exc where
  "host_missing = HTTPErr \<lparr>err_status = 400, err_reason = ascii ''Bad request'',
                     err_body = Some (ascii ''Host header is missing'')\<rparr>"

section \<open>Well-formed requests\<close>

definition header_block :: "bytes \<Rightarrow> bytes list" where
  "header_block rfile = header_lines (drop (length (first_line rfile)) rfile)"

definition parsed_block :: "bytes \<Rightarrow> Message" where
  "parsed_block rfile = parsestr (decode_latin1 (concat (header_block rfile)))"

definition body_stream :: "bytes \<Rightarrow> bytes" where
  "body_stream rfile = after_headers (drop (length (first_line rfile)) rfile)"

definition ex_request :: bytes where
  "ex_request =
     ('' GET   /x/y  HTTP/1.1 '' @ [CR, LF]) @
     concat [''Host: h'' @ [CR, LF], ''Content-Length: 4'' @ [CR, LF]] @ [CR, LF] @ ''data''"


section \<open>What reaches the handler\<close>



section \<open>Body access\<close>

definition header_values :: "ustr \<Rightarrow> Message \<Rightarrow> ustr list" where
  "header_values n msg = map snd (filter (named n) msg)"

text \<open>The whitespace that \<^verbatim>\<open>int\<close> accepts around the digits.\<close>

definition is_int_space :: "nat \<Rightarrow> bool" where
  "is_int_space c = (is_ascii_space c \<or> (127 \<le> c \<and> is_space c))"

text \<open>An interpreter with the default digit limit, on a machine that can allocate 2^30 bytes.\<close>

definition default_interp :: Interp where
  "default_interp =
     \<lparr>max_str_digits = 4300, alloc_max = 2 ^ 30, unicode_decimal = (\<lambda>c. None)\<rparr>"

section \<open>The error mapper\<close>

fun is_http_error :: "exc \<Rightarrow> bool" where
  "is_http_error (HTTPErr e) = True"
| "is_http_error _ = False"

section \<open>Properties of the serializer\<close>

lemma is_latin1_append [simp]: "is_latin1 (a @ b) = (is_latin1 a \<and> is_latin1 b)"
  by (simp add: is_latin1_def)

lemma is_latin1_ascii [simp]: "is_latin1 (ascii s)"
  by (induction s) (simp_all add: is_latin1_def ascii_def)

lemma is_latin1_crlf [simp]: "is_latin1 [13, 10]"
  by (simp add: is_latin1_def)

lemma is_latin1_digits10 [simp]: "is_latin1 (digits10 n)"
proof (induction n rule: digits10.induct)
  case (1 n)
  show ?case
  proof (cases "n < 10")
    case True
    then show ?thesis by (subst digits10.simps) (simp add: is_latin1_def)
  next
    case False
    have "n mod 10 < 10" by simp
    then have "48 + n mod 10 < 256" by linarith
    with False 1 show ?thesis by (subst digits10.simps) (simp add: is_latin1_def)
  qed
qed

lemma is_latin1_str_int [simp]: "is_latin1 (str_int i)"
proof -
  have "is_latin1 [45]" by (simp add: is_latin1_def)
  then show ?thesis unfolding str_int_def
    using is_latin1_append [of "[45]" "digits10 (nat (- i))"] by simp
qed

lemma encode_latin1_ok: "is_latin1 s \<Longrightarrow> encode_latin1 s = Inr (latin1 s)"
  by (simp add: encode_latin1_def is_latin1_def latin1_def)

lemma encode_latin1_fail: "\<not> is_latin1 s \<Longrightarrow> encode_latin1 s = Inl UnicodeEncodeError"
  by (simp add: encode_latin1_def is_latin1_def)

lemma write_headers_ok:
  "list_all (\<lambda>h. is_latin1 (fst h) \<and> is_latin1 (format_val (snd h))) hs \<Longrightarrow>
   write_headers wfile hs = Inr (wfile @ concat (map header_line hs))"
proof (induction hs arbitrary: wfile)
  case Nil
  then show ?case by simp
next
  case (Cons h hs)
  obtain k v where h: "h = (k, v)" by (cases h)
  from Cons.prems h have ok: "is_latin1 (k @ ascii '': '' @ format_val v @ [13, 10])"
    by simp
  from Cons.prems have rest: "list_all (\<lambda>h. is_latin1 (fst h) \<and> is_latin1 (format_val (snd h))) hs"
    by simp
  show ?case
    using Cons.IH [OF rest] h by (simp add: encode_latin1_ok [OF ok] header_line_def)
qed

lemma send_response_ok: "encodable resp \<Longrightarrow> send_response resp = Inr (serialized resp)"
proof -
  assume enc: "encodable resp"
  let ?sl = "ascii ''HTTP/1.1 '' @ str_int (resp_status resp) @ ascii '' '' @
              resp_reason resp @ [13, 10]"
  from enc have "is_latin1 ?sl"
    by (simp add: encodable_def)
  then have sl: "encode_latin1 ?sl = Inr (latin1 ?sl)" by (rule encode_latin1_ok)
  from enc have hs: "list_all (\<lambda>h. is_latin1 (fst h) \<and> is_latin1 (format_val (snd h)))
        (case resp_headers resp of None \<Rightarrow> [] | Some hs \<Rightarrow> hs)"
    by (simp add: encodable_def)
  show ?thesis
  proof (cases "resp_headers resp")
    case None
    then show ?thesis
      unfolding send_response_def serialized_def sl
      by (simp split: option.splits)
  next
    case (Some l)
    with hs have "write_headers (latin1 ?sl) l = Inr (latin1 ?sl @ concat (map header_line l))"
      using write_headers_ok by simp
    with Some show ?thesis
      unfolding send_response_def serialized_def sl
      by (simp split: option.splits)
  qed
qed

lemmas wire_eval =
  ascii_def digits10.simps str_int_def latin1_def header_line_def serialized_def
  encodable_def is_latin1_def char_of_eq_iff



section \<open>Lines of a stream\<close>

lemma first_line_Nil [simp]: "first_line [] = []"
  by (simp add: first_line_def)

lemma first_line_Cons:
  "first_line (c # cs) = (if c = LF then [c] else c # first_line cs)"
  by (simp add: first_line_def)

lemma first_line_nonempty: "s \<noteq> [] \<Longrightarrow> first_line s \<noteq> []"
  by (cases s) (simp_all add: first_line_Cons)

lemma first_line_prefix: "first_line s @ drop (length (first_line s)) s = s"
  by (induction s) (simp_all add: first_line_Cons)

lemma length_first_line_le: "length (first_line s) \<le> length s"
  by (induction s) (simp_all add: first_line_Cons)

lemma readline_first_line:
  "readline n s = (take n (first_line s), drop (min n (length (first_line s))) s)"
proof (induction s arbitrary: n)
  case Nil
  then show ?case by simp
next
  case (Cons c s)
  show ?case
  proof (cases "n = 0")
    case True
    then show ?thesis by simp
  next
    case False
    then obtain m where n: "n = Suc m" by (cases n) auto
    show ?thesis
    proof (cases "c = LF")
      case True
      with n show ?thesis by (simp add: first_line_Cons)
    next
      case False
      with n Cons [of m] show ?thesis by (simp add: first_line_Cons)
    qed
  qed
qed

lemma readline_short:
  "length (first_line s) \<le> n \<Longrightarrow> readline n s = (first_line s, drop (length (first_line s)) s)"
  by (simp add: readline_first_line min_def)

lemma readline_too_long:
  "n < length (first_line s) \<Longrightarrow> length (fst (readline (Suc n) s)) = Suc n"
  by (simp add: readline_first_line)

section \<open>Whitespace splitting\<close>

lemma split_ws_blank: "blank w \<Longrightarrow> split_ws (w @ s) = split_ws s"
  by (induction w) (simp_all add: blank_def)

lemma split_ws_token:
  assumes "token_ok t" and "s = [] \<or> is_space (hd s)"
  shows "split_ws (t @ s) = t # split_ws s"
proof -
  from assms(1) obtain c cs where t: "t = c # cs" and c: "\<not> is_space c"
    and cs: "list_all (\<lambda>c. \<not> is_space c) cs"
    by (cases t) (auto simp: token_ok_def)
  from cs have all: "\<forall>x\<in>set cs. \<not> is_space x" by (simp add: list_all_iff)
  have tw: "takeWhile (\<lambda>x. \<not> is_space x) (cs @ s) = cs"
  proof (cases s)
    case Nil
    with all show ?thesis by simp
  next
    case (Cons d ds)
    with assms(2) have "is_space d" by simp
    with all Cons show ?thesis by (simp add: takeWhile_append2)
  qed
  have dw: "dropWhile (\<lambda>x. \<not> is_space x) (cs @ s) = s"
  proof (cases s)
    case Nil
    with all show ?thesis by simp
  next
    case (Cons d ds)
    with assms(2) have "is_space d" by simp
    with all Cons show ?thesis by (simp add: dropWhile_append2)
  qed
  from t c tw dw show ?thesis by simp
qed

lemma split_ws_render:
  "list_all token_ok ts \<Longrightarrow> list_all (\<lambda>w. w \<noteq> [] \<and> blank w) seps \<Longrightarrow>
   length seps = length ts \<Longrightarrow> blank lead \<Longrightarrow>
   split_ws (lead @ concat (map2 (@) ts seps)) = ts"
proof (induction ts arbitrary: seps lead)
  case Nil
  then have "split_ws (lead @ []) = split_ws []" by (intro split_ws_blank)
  with Nil show ?case by simp
next
  case (Cons t ts)
  then obtain w ws where seps: "seps = w # ws" by (cases seps) auto
  with Cons.prems have w: "w \<noteq> []" "blank w" and t: "token_ok t"
    and rest: "list_all token_ok ts" "list_all (\<lambda>w. w \<noteq> [] \<and> blank w) ws" "length ws = length ts"
    by auto
  let ?tail = "concat (map2 (@) ts ws)"
  from w have hd: "w @ ?tail = [] \<or> is_space (hd (w @ ?tail))"
    by (cases w) (simp_all add: blank_def)
  have "split_ws (lead @ t @ w @ ?tail) = split_ws (t @ w @ ?tail)"
    using Cons.prems(4) by (rule split_ws_blank)
  also have "\<dots> = t # split_ws (w @ ?tail)"
    using t hd by (rule split_ws_token)
  also have "split_ws (w @ ?tail) = ts"
    using Cons.IH [OF rest w(2)] .
  finally show ?case using seps by simp
qed

lemma split_ws_three:
  assumes "blank ws0" "token_ok m" "blank ws1" "ws1 \<noteq> []" "token_ok t" "blank ws2" "ws2 \<noteq> []"
    "token_ok v" "blank ws3"
  shows "split_ws (ws0 @ m @ ws1 @ t @ ws2 @ v @ ws3) = [m, t, v]"
proof -
  have h1: "ws1 @ t @ ws2 @ v @ ws3 = [] \<or> is_space (hd (ws1 @ t @ ws2 @ v @ ws3))"
    using assms(3,4) by (cases ws1) (simp_all add: blank_def)
  have h2: "ws2 @ v @ ws3 = [] \<or> is_space (hd (ws2 @ v @ ws3))"
    using assms(6,7) by (cases ws2) (simp_all add: blank_def)
  have h3: "ws3 = [] \<or> is_space (hd ws3)"
    using assms(9) by (cases ws3) (simp_all add: blank_def)
  have e: "split_ws ws3 = []"
    using split_ws_blank [OF assms(9), of "[]"] by simp
  show ?thesis
    by (simp add: split_ws_blank [OF assms(1)] split_ws_token [OF assms(2) h1]
        split_ws_blank [OF assms(3)] split_ws_token [OF assms(5) h2]
        split_ws_blank [OF assms(6)] split_ws_token [OF assms(8) h3] e)
qed

section \<open>The request line\<close>


lemma prl_malformed:
  "length (first_line rfile) \<le> MAX_LINE \<Longrightarrow>
   length (split_ws (decode_latin1 (first_line rfile))) \<noteq> 3 \<Longrightarrow>
   parse_request_line rfile = Inl malformed_line"
  by (simp add: parse_request_line_def readline_first_line malformed_line_def)


lemma prl_ok:
  "length (first_line rfile) \<le> MAX_LINE \<Longrightarrow>
   split_ws (decode_latin1 (first_line rfile)) = [m, t, ascii ''HTTP/1.1''] \<Longrightarrow>
   parse_request_line rfile =
     Inr ((m, t, ascii ''HTTP/1.1''), drop (length (first_line rfile)) rfile)"
  by (simp add: parse_request_line_def readline_first_line min_def)

lemma parse_request_line_error: "parse_request_line rfile = Inl e \<Longrightarrow> parse_request rfile = Inl e"
  by (simp add: parse_request_def)

lemma serve_client_parse_error:
  "parse_request conn = Inl (HTTPErr e) \<Longrightarrow>
   serve_client handle_request str_of conn = send_error str_of (HTTPErr e)"
  by (simp add: serve_client_def)

lemma utf8_ascii: "list_all (\<lambda>c. of_char c < (128::nat)) s \<Longrightarrow> encode_utf8 (ascii s) = Inr s"
  by (induction s) (simp_all add: ascii_def utf8_cp_def)

lemma ascii_eq_Nil [simp]: "(ascii s = []) = (s = [])"
  by (simp add: ascii_def)

lemma send_error_http:
  "encode_utf8 (error_text e) = Inr enc \<Longrightarrow>
   send_error str_of (HTTPErr e) =
     send_response \<lparr>resp_status = err_status e, resp_reason = err_reason e,
        resp_headers = Some [(ascii ''Content-Length'', PyInt (int (length enc)))],
        resp_body = Some enc\<rparr>"
  by (simp add: send_error_def error_text_def)

lemma send_error_malformed:
  "send_error str_of malformed_line =
     Inr (''HTTP/1.1 400 Bad request'' @ [CR, LF] @ ''Content-Length: 22'' @ [CR, LF, CR, LF] @
          ''Malformed request line'')"
proof -
  have u: "encode_utf8 (ascii ''Malformed request line'') = Inr ''Malformed request line''"
    by (rule utf8_ascii) simp
  let ?r = "\<lparr>resp_status = 400, resp_reason = ascii ''Bad request'',
             resp_headers = Some [(ascii ''Content-Length'', PyInt 22)],
             resp_body = Some ''Malformed request line''\<rparr>"
  have "send_error str_of malformed_line = send_response ?r"
    unfolding malformed_line_def
    by (subst send_error_http [where enc = "''Malformed request line''"])
       (simp_all add: error_text_def u)
  moreover have "encodable ?r" by (simp add: wire_eval)
  then have "send_response ?r = Inr (serialized ?r)" by (rule send_response_ok)
  moreover have "serialized ?r = ''HTTP/1.1 400 Bad request'' @ [CR, LF] @ ''Content-Length: 22'' @ [CR, LF, CR, LF] @
          ''Malformed request line''"
    by (simp add: wire_eval)
  ultimately show ?thesis by simp
qed

lemmas line_eval =
  first_line_Cons MAX_LINE_def MAX_HEADERS_def decode_latin1_def is_space_def ascii_def
  blank_def token_ok_def

text \<open>
  Claim C6 (as amended). A request line within the length limit whose number of
  whitespace-separated tokens is not 3 makes parsing fail with status 400; the reason phrase
  of the error is \<open>Bad request\<close> and \<open>Malformed request line\<close> is its body text, as the
  response on the wire shows. The tokens do not depend on the amount of whitespace before,
  between and after them.
\<close>

theorem malformed_request_line_400:
  "(length (first_line rfile) \<le> MAX_LINE \<and>
    length (split_ws (decode_latin1 (first_line rfile))) \<noteq> 3 \<longrightarrow>
      parse_request rfile =
        Inl (HTTPErr \<lparr>err_status = 400, err_reason = ascii ''Bad request'',
                      err_body = Some (ascii ''Malformed request line'')\<rparr>) \<and>
      serve_client handle_request str_of rfile =
        Inr (''HTTP/1.1 400 Bad request'' @ [CR, LF] @ ''Content-Length: 22'' @
             [CR, LF, CR, LF] @ ''Malformed request line'')) \<and>
   (list_all token_ok ts \<and> list_all (\<lambda>w. w \<noteq> [] \<and> blank w) seps \<and>
    length seps = length ts \<and> blank lead \<longrightarrow>
      split_ws (lead @ concat (map2 (@) ts seps)) = ts)"
proof (intro conjI impI)
  assume a: "length (first_line rfile) \<le> MAX_LINE \<and>
    length (split_ws (decode_latin1 (first_line rfile))) \<noteq> 3"
  then have "parse_request_line rfile = Inl malformed_line" by (simp add: prl_malformed)
  then have p: "parse_request rfile = Inl malformed_line" by (rule parse_request_line_error)
  then show "parse_request rfile =
        Inl (HTTPErr \<lparr>err_status = 400, err_reason = ascii ''Bad request'',
                      err_body = Some (ascii ''Malformed request line'')\<rparr>)"
    by (simp add: malformed_line_def)
  from p have "serve_client handle_request str_of rfile = send_error str_of malformed_line"
    unfolding malformed_line_def by (rule serve_client_parse_error)
  then show "serve_client handle_request str_of rfile =
        Inr (''HTTP/1.1 400 Bad request'' @ [CR, LF] @ ''Content-Length: 22'' @
             [CR, LF, CR, LF] @ ''Malformed request line'')"
    by (simp add: send_error_malformed)
next
  assume "list_all token_ok ts \<and> list_all (\<lambda>w. w \<noteq> [] \<and> blank w) seps \<and>
    length seps = length ts \<and> blank lead"
  then show "split_ws (lead @ concat (map2 (@) ts seps)) = ts"
    by (simp add: split_ws_render)
qed

text \<open>Two tokens with extra whitespace around them.\<close>

theorem malformed_request_line_400_witness:
  "length (first_line ('' GET   /x'' @ [CR, LF])) \<le> MAX_LINE \<and>
   length (split_ws (decode_latin1 (first_line ('' GET   /x'' @ [CR, LF])))) \<noteq> 3 \<and>
   parse_request ('' GET   /x'' @ [CR, LF]) =
     Inl (HTTPErr \<lparr>err_status = 400, err_reason = ascii ''Bad request'',
                   err_body = Some (ascii ''Malformed request line'')\<rparr>) \<and>
   serve_client (\<lambda>req. Inl ValueError) (\<lambda>e. []) ('' GET   /x'' @ [CR, LF]) =
     Inr (''HTTP/1.1 400 Bad request'' @ [CR, LF] @ ''Content-Length: 22'' @
          [CR, LF, CR, LF] @ ''Malformed request line'') \<and>
   list_all token_ok [ascii ''GET'', ascii ''/x''] \<and>
   list_all (\<lambda>w. w \<noteq> [] \<and> blank w) [ascii ''   '', [13, 10]] \<and>
   blank (ascii '' '') \<and>
   split_ws (ascii '' '' @ concat (map2 (@) [ascii ''GET'', ascii ''/x''] [ascii ''   '', [13, 10]])) =
     [ascii ''GET'', ascii ''/x'']"
proof -
  have h1: "length (first_line ('' GET   /x'' @ [CR, LF])) \<le> MAX_LINE"
    by (simp add: line_eval)
  have h2: "length (split_ws (decode_latin1 (first_line ('' GET   /x'' @ [CR, LF])))) \<noteq> 3"
    by (simp add: line_eval)
  have h3: "list_all token_ok [ascii ''GET'', ascii ''/x''] \<and>
     list_all (\<lambda>w. w \<noteq> [] \<and> blank w) [ascii ''   '', [13, 10]] \<and>
     length [ascii ''   '', [13, 10]] = length [ascii ''GET'', ascii ''/x''] \<and> blank (ascii '' '')"
    by (simp add: line_eval)
  from malformed_request_line_400 [of "'' GET   /x'' @ [CR, LF]" "\<lambda>req. Inl ValueError" "\<lambda>e. []"
      "[ascii ''GET'', ascii ''/x'']" "[ascii ''   '', [13, 10]]" "ascii '' ''"] h1 h2 h3
  show ?thesis by blast
qed

text \<open>
  The claim as worded fails: for the request line \<open>GET /x\<close> the error has status 400, but
  its reason phrase is \<open>Bad request\<close>, not \<open>Malformed request line\<close>.
\<close>

theorem malformed_reason_counterexample:
  "length (split_ws (decode_latin1 (first_line (''GET /x'' @ [CR, LF])))) = 2 \<and>
   parse_request (''GET /x'' @ [CR, LF]) =
     Inl (HTTPErr \<lparr>err_status = 400, err_reason = ascii ''Bad request'',
                   err_body = Some (ascii ''Malformed request line'')\<rparr>) \<and>
   err_reason \<lparr>err_status = 400, err_reason = ascii ''Bad request'',
                   err_body = Some (ascii ''Malformed request line'')\<rparr> \<noteq>
     ascii ''Malformed request line''"
proof -
  have h1: "length (first_line (''GET /x'' @ [CR, LF])) \<le> MAX_LINE"
    by (simp add: line_eval)
  have h2: "length (split_ws (decode_latin1 (first_line (''GET /x'' @ [CR, LF])))) = 2"
    by (simp add: line_eval)
  then have "length (split_ws (decode_latin1 (first_line (''GET /x'' @ [CR, LF])))) \<noteq> 3"
    by simp
  with h1 have "parse_request_line (''GET /x'' @ [CR, LF]) = Inl malformed_line"
    by (rule prl_malformed)
  then have "parse_request (''GET /x'' @ [CR, LF]) = Inl malformed_line"
    by (rule parse_request_line_error)
  moreover have "ascii ''Bad request'' \<noteq> ascii ''Malformed request line''"
    by (simp add: ascii_def)
  ultimately show ?thesis using h2 by (simp add: malformed_line_def)
qed

section \<open>The header block\<close>

lemma lines_of_Nil [simp]: "lines_of [] = []"
  by (simp add: lines_of.simps)

lemma lines_of_Cons:
  "s \<noteq> [] \<Longrightarrow> lines_of s = first_line s # lines_of (drop (length (first_line s)) s)"
  by (subst lines_of.simps) simp

lemma concat_lines_of: "concat (lines_of s) = s"
proof (induction s rule: lines_of.induct)
  case (1 s)
  show ?case
  proof (cases "s = []")
    case True
    then show ?thesis by simp
  next
    case False
    with 1 show ?thesis by (simp add: lines_of_Cons first_line_prefix)
  qed
qed

lemma loop_spec_Nil: "length acc \<le> MAX_HEADERS \<Longrightarrow> loop_spec acc [] = Inr (acc, [])"
  by (simp add: loop_spec_def header_lines_def after_headers_def first_long_def)

lemma parse_headers_loop_Nil: "parse_headers_loop acc [] = Inr (acc, [])"
  by (subst parse_headers_loop.simps) (simp add: headers_iter_def)

lemma parse_headers_loop_spec:
  "length acc \<le> MAX_HEADERS \<Longrightarrow> parse_headers_loop acc s = loop_spec acc s"
proof (induction s arbitrary: acc rule: lines_of.induct)
  case (1 s)
  show ?case
  proof (cases "s = []")
    case True
    with "1.prems" show ?thesis by (simp add: loop_spec_Nil parse_headers_loop_Nil)
  next
    case False
    let ?l = "first_line s"
    let ?s' = "drop (length ?l) s"
    have lines: "lines_of s = ?l # lines_of ?s'" using False by (rule lines_of_Cons)
    have lne: "?l \<noteq> []" using False by (rule first_line_nonempty)
    show ?thesis
    proof (cases "MAX_LINE < length ?l")
      case True
      then have nb: "?l \<noteq> [CR, LF] \<and> ?l \<noteq> [LF]" by (auto simp: MAX_LINE_def)
      have "parse_headers_loop acc s = Inl header_too_large"
        using True
        by (subst parse_headers_loop.simps)
           (simp add: headers_iter_def readline_first_line header_too_large_def)
      moreover have "loop_spec acc s = Inl header_too_large"
        using True nb "1.prems"
        by (simp add: loop_spec_def header_lines_def lines first_long_def)
      ultimately show ?thesis by simp
    next
      case short: False
      then have rl: "readline (Suc MAX_LINE) s = (?l, ?s')"
        by (simp add: readline_first_line min_def)
      show ?thesis
      proof (cases "?l = [CR, LF] \<or> ?l = [LF]")
        case True
        have "parse_headers_loop acc s = Inr (acc, ?s')"
          using True short
          by (subst parse_headers_loop.simps) (auto simp: headers_iter_def rl)
        moreover have "loop_spec acc s = Inr (acc, ?s')"
          using True "1.prems"
          by (auto simp: loop_spec_def header_lines_def lines first_long_def after_headers_def)
        ultimately show ?thesis by simp
      next
        case nb: False
        have hl: "header_lines s = ?l # header_lines ?s'"
          using nb by (simp add: header_lines_def lines)
        have fl: "first_long (?l # header_lines ?s') = Suc (first_long (header_lines ?s'))"
          using short by (simp add: first_long_def)
        have ah: "after_headers s = after_headers ?s'"
          by (simp add: after_headers_def hl lines drop_drop add.commute)
        show ?thesis
        proof (cases "length acc = MAX_HEADERS")
          case True
          have "parse_headers_loop acc s = Inl too_many_headers"
            using True nb short lne
            by (subst parse_headers_loop.simps)
               (simp add: headers_iter_def rl too_many_headers_def)
          moreover have "loop_spec acc s = Inl too_many_headers"
            using True by (simp add: loop_spec_def hl fl)
          ultimately show ?thesis by simp
        next
          case False
          with "1.prems" have len: "length (acc @ [?l]) \<le> MAX_HEADERS" by simp
          have "parse_headers_loop acc s = parse_headers_loop (acc @ [?l]) ?s'"
            using len nb short lne
            by (subst parse_headers_loop.simps) (simp add: headers_iter_def rl)
          also have "\<dots> = loop_spec (acc @ [?l]) ?s'"
            using \<open>s \<noteq> []\<close> len by (rule "1.IH")
          also have "\<dots> = loop_spec acc s"
            by (simp add: loop_spec_def ah hl fl)
          finally show ?thesis .
        qed
      qed
    qed
  qed
qed

subsection \<open>Streams built from lines\<close>

lemma first_line_no_LF: "LF \<notin> set s \<Longrightarrow> first_line s = s"
  by (induction s) (auto simp: first_line_Cons)

lemma first_line_body: "LF \<notin> set b \<Longrightarrow> first_line (b @ LF # r) = b @ [LF]"
  by (induction b) (auto simp: first_line_Cons)

lemma first_line_append: "is_line l \<Longrightarrow> first_line (l @ r) = l"
proof -
  assume "is_line l"
  then have l: "l = butlast l @ [LF]" and n: "LF \<notin> set (butlast l)"
    by (auto simp: is_line_def) (metis append_butlast_last_id)
  have "first_line (butlast l @ LF # r) = butlast l @ [LF]"
    using n by (rule first_line_body)
  with l show ?thesis by (metis append.assoc append_Cons append_Nil)
qed

lemma lines_of_append: "is_line l \<Longrightarrow> lines_of (l @ r) = l # lines_of r"
proof -
  assume l: "is_line l"
  then have "l @ r \<noteq> []" by (simp add: is_line_def)
  then show ?thesis by (simp add: lines_of_Cons first_line_append [OF l])
qed

lemma lines_of_concat: "list_all is_line ls \<Longrightarrow> lines_of (concat ls @ r) = ls @ lines_of r"
  by (induction ls) (simp_all add: lines_of_append)


lemma is_line_blank: "is_blank_line l \<Longrightarrow> is_line l"
  by (auto simp: is_blank_line_def is_line_def)

lemma header_lines_concat_blank:
  assumes "list_all is_line ls" "list_all (\<lambda>l. \<not> is_blank_line l) ls" "is_blank_line b"
  shows "header_lines (concat ls @ b @ r) = ls"
proof -
  have "lines_of (concat ls @ b @ r) = ls @ b # lines_of r"
    using assms by (simp add: lines_of_concat lines_of_append is_line_blank)
  moreover have "\<forall>l\<in>set ls. l \<noteq> [CR, LF] \<and> l \<noteq> [LF]"
    using assms(2) by (auto simp: list_all_iff is_blank_line_def)
  ultimately show ?thesis
    using assms(3) by (auto simp: header_lines_def is_blank_line_def takeWhile_append2)
qed

lemma after_headers_concat_blank:
  assumes "list_all is_line ls" "list_all (\<lambda>l. \<not> is_blank_line l) ls" "is_blank_line b"
  shows "after_headers (concat ls @ b @ r) = r"
proof -
  have "lines_of (concat ls @ b @ r) = ls @ b # lines_of r"
    using assms by (simp add: lines_of_concat lines_of_append is_line_blank)
  then show ?thesis
    by (simp add: after_headers_def header_lines_concat_blank [OF assms])
qed


lemma header_lines_concat_eof:
  assumes "list_all is_line ls" "list_all (\<lambda>l. \<not> is_blank_line l) ls"
  shows "header_lines (concat ls) = ls"
proof -
  have "lines_of (concat ls @ []) = ls @ lines_of []"
    using assms(1) by (rule lines_of_concat)
  moreover have "\<forall>l\<in>set ls. l \<noteq> [CR, LF] \<and> l \<noteq> [LF]"
    using assms(2) by (auto simp: list_all_iff is_blank_line_def)
  ultimately show ?thesis by (simp add: header_lines_def)
qed


lemma first_long_all:
  "list_all (\<lambda>l. length l \<le> MAX_LINE) (take n hl) \<Longrightarrow> min n (length hl) \<le> first_long hl"
proof (induction hl arbitrary: n)
  case Nil
  then show ?case by simp
next
  case (Cons a hl)
  then show ?case by (cases n) (auto simp: first_long_def)
qed

lemma parse_headers_spec:
  "parse_headers s =
     (case loop_spec [] s of
        Inl e \<Rightarrow> Inl e
      | Inr (headers, rfile') \<Rightarrow> Inr (parsestr (decode_latin1 (concat headers)), rfile'))"
  by (simp add: parse_headers_def parse_headers_loop_spec)



lemma parse_headers_accept:
  assumes "list_all (\<lambda>l. length l \<le> MAX_LINE) (header_lines s)"
    "length (header_lines s) \<le> MAX_HEADERS"
  shows "parse_headers s =
     Inr (parsestr (decode_latin1 (concat (header_lines s))), after_headers s)"
proof -
  from first_long_all [of "length (header_lines s)" "header_lines s"] assms(1)
  have "length (header_lines s) \<le> first_long (header_lines s)" by simp
  with assms(2) show ?thesis by (simp add: parse_headers_spec loop_spec_def)
qed


lemma list_all_replicate: "list_all P (replicate n x) = (n = 0 \<or> P x)"
  by (auto simp: list_all_iff)



lemma header_lines_ex_101: "header_lines ex_101_headers = replicate 101 (''a:b'' @ [LF])"
  unfolding ex_101_headers_def
  by (subst header_lines_concat_eof)
     (simp_all add: is_line_def is_blank_line_def list_all_replicate)

lemma header_lines_ex_100: "header_lines ex_100_headers = replicate 100 (''a:b'' @ [LF])"
  unfolding ex_100_headers_def
  by (subst header_lines_concat_blank)
     (simp_all add: is_line_def is_blank_line_def list_all_replicate)

lemma after_headers_ex_100: "after_headers ex_100_headers = ''body''"
  unfolding ex_100_headers_def
  by (subst after_headers_concat_blank)
     (simp_all add: is_line_def is_blank_line_def list_all_replicate)

lemma prl_get_root:
  "parse_request_line (''GET / HTTP/1.1'' @ [CR, LF] @ s) =
     Inr ((ascii ''GET'', ascii ''/'', ascii ''HTTP/1.1''), s)"
proof -
  let ?rf = "''GET / HTTP/1.1'' @ [CR, LF] @ s"
  have fl: "first_line ?rf = ''GET / HTTP/1.1'' @ [CR, LF]"
    by (simp add: first_line_Cons)
  have len: "length (first_line ?rf) \<le> MAX_LINE"
    unfolding fl by (simp add: MAX_LINE_def)
  have sp: "split_ws (decode_latin1 (first_line ?rf)) =
      [ascii ''GET'', ascii ''/'', ascii ''HTTP/1.1'']"
    unfolding fl by (simp add: line_eval)
  from prl_ok [OF len sp] show ?thesis unfolding fl by simp
qed




section \<open>What the parser buffers\<close>

lemma length_readline: "length (fst (readline n s)) \<le> n"
  by (simp add: readline_first_line)

lemma headers_iter_cases:
  assumes "headers_iter headers rfile = (ctl, line, headers', rfile')"
  shows "length line \<le> MAX_LINE + 1 \<and>
         (headers' = headers \<or> (headers' = headers @ [line] \<and> length line \<le> MAX_LINE)) \<and>
         (ctl = Next \<longrightarrow> length headers' \<le> MAX_HEADERS)"
proof -
  have "length (fst (readline (MAX_LINE + 1) rfile)) \<le> MAX_LINE + 1"
    by (rule length_readline)
  with assms show ?thesis
    by (auto simp: headers_iter_def split: prod.splits if_splits)
qed

lemma header_states_within:
  "length headers \<le> MAX_HEADERS \<Longrightarrow> list_all (\<lambda>l. length l \<le> MAX_LINE) headers \<Longrightarrow>
   list_all within (header_states headers rfile)"
proof (induction headers rfile rule: header_states.induct)
  case (1 headers rfile)
  obtain ctl line headers' rfile' where it: "headers_iter headers rfile = (ctl, line, headers', rfile')"
    by (cases "headers_iter headers rfile") auto
  note c = headers_iter_cases [OF it]
  from c "1.prems" have w: "within (line, headers')"
    by (auto simp: within_def)
  show ?case
  proof (cases ctl)
    case Next
    with c have len: "length headers' \<le> MAX_HEADERS" by simp
    from c "1.prems" have all: "list_all (\<lambda>l. length l \<le> MAX_LINE) headers'" by auto
    have "list_all within (header_states headers' rfile')"
      using it Next len all by (intro "1.IH") auto
    with w it Next show ?thesis by (subst header_states.simps) simp
  next
    case Break
    with w it show ?thesis by (subst header_states.simps) simp
  next
    case (Raise e)
    with w it show ?thesis by (subst header_states.simps) simp
  qed
qed

lemma loop_accepts_within:
  "length headers \<le> MAX_HEADERS \<Longrightarrow> list_all (\<lambda>l. length l \<le> MAX_LINE) headers \<Longrightarrow>
   parse_headers_loop headers rfile = Inr (hs, rfile'') \<Longrightarrow>
   length hs \<le> MAX_HEADERS \<and> list_all (\<lambda>l. length l \<le> MAX_LINE) hs"
proof (induction headers rfile rule: parse_headers_loop.induct)
  case (1 headers rfile)
  obtain ctl line headers' rfile' where it: "headers_iter headers rfile = (ctl, line, headers', rfile')"
    by (cases "headers_iter headers rfile") auto
  note c = headers_iter_cases [OF it]
  show ?case
  proof (cases ctl)
    case Next
    with c have len: "length headers' \<le> MAX_HEADERS" by simp
    from c "1.prems" have all: "list_all (\<lambda>l. length l \<le> MAX_LINE) headers'" by auto
    from "1.prems"(3) it Next have "parse_headers_loop headers' rfile' = Inr (hs, rfile'')"
      by (subst (asm) parse_headers_loop.simps) simp
    with it Next len all show ?thesis by (intro "1.IH") auto
  next
    case Break
    with "1.prems"(3) it have "hs = headers'"
      by (subst (asm) parse_headers_loop.simps) simp
    moreover from it Break have "headers' = headers"
      by (auto simp: headers_iter_def split: prod.splits if_splits)
    ultimately show ?thesis using "1.prems" by simp
  next
    case (Raise e)
    with "1.prems"(3) it show ?thesis
      by (subst (asm) parse_headers_loop.simps) simp
  qed
qed

lemma loop_too_many_last:
  "length headers \<le> MAX_HEADERS \<Longrightarrow>
   parse_headers_loop headers rfile = Inl too_many_headers \<Longrightarrow>
   length (snd (last (header_states headers rfile))) = MAX_HEADERS + 1"
proof (induction headers rfile rule: parse_headers_loop.induct)
  case (1 headers rfile)
  obtain ctl line headers' rfile' where it: "headers_iter headers rfile = (ctl, line, headers', rfile')"
    by (cases "headers_iter headers rfile") auto
  note c = headers_iter_cases [OF it]
  show ?case
  proof (cases ctl)
    case Next
    with c have len: "length headers' \<le> MAX_HEADERS" by simp
    from "1.prems"(2) it Next have "parse_headers_loop headers' rfile' = Inl too_many_headers"
      by (subst (asm) parse_headers_loop.simps) simp
    with it Next len have "length (snd (last (header_states headers' rfile'))) = MAX_HEADERS + 1"
      by (intro "1.IH") auto
    moreover have "header_states headers' rfile' \<noteq> []"
      by (subst header_states.simps) (auto split: prod.splits control.splits)
    ultimately show ?thesis using it Next by (subst header_states.simps) simp
  next
    case Break
    with "1.prems"(2) it show ?thesis
      by (subst (asm) parse_headers_loop.simps) simp
  next
    case (Raise e)
    with "1.prems"(2) it have e: "e = too_many_headers"
      by (subst (asm) parse_headers_loop.simps) simp
    have "ascii ''Request header too large'' \<noteq> ascii ''Too many headers''"
      by (simp add: ascii_def)
    with it Raise e "1.prems"(1) have "length headers' = MAX_HEADERS + 1"
      by (auto simp: headers_iter_def too_many_headers_def split: prod.splits if_splits)
    with it Raise show ?thesis by (subst header_states.simps) simp
  qed
qed

lemma loop_ex_100:
  "parse_headers_loop [] ex_100_headers = Inr (replicate 100 (''a:b'' @ [LF]), ''body'')"
proof -
  have "first_long (header_lines ex_100_headers) = 100"
    by (simp add: header_lines_ex_100 first_long_def takeWhile_replicate MAX_LINE_def)
  then have "loop_spec [] ex_100_headers = Inr (replicate 100 (''a:b'' @ [LF]), ''body'')"
    by (simp add: loop_spec_def header_lines_ex_100 after_headers_ex_100 MAX_HEADERS_def)
  then show ?thesis by (simp add: parse_headers_loop_spec)
qed

lemma loop_ex_101: "parse_headers_loop [] ex_101_headers = Inl too_many_headers"
proof -
  have "first_long (header_lines ex_101_headers) = 101"
    by (simp add: header_lines_ex_101 first_long_def takeWhile_replicate MAX_LINE_def)
  then have "loop_spec [] ex_101_headers = Inl too_many_headers"
    by (simp add: loop_spec_def header_lines_ex_101 MAX_HEADERS_def)
  then show ?thesis by (simp add: parse_headers_loop_spec)
qed

text \<open>
  Claim C8 (as amended). The line buffer never holds more than \<open>MAX_LINE + 1\<close> bytes, for
  the request line and in every pass of the header loop: the code reads one byte beyond the
  limit to detect a line that is too long. The accumulated header list never holds more
  than \<open>MAX_HEADERS + 1\<close> lines, each of at most \<open>MAX_LINE\<close> bytes: the line that exceeds the
  count is appended before the count is checked. A request line that is accepted has at
  most \<open>MAX_LINE\<close> bytes, and a header list that is returned has at most \<open>MAX_HEADERS\<close>
  lines of at most \<open>MAX_LINE\<close> bytes.
\<close>

theorem buffers_bounded:
  "length (fst (readline (MAX_LINE + 1) rfile)) \<le> MAX_LINE + 1 \<and>
   list_all (\<lambda>st. length (fst st) \<le> MAX_LINE + 1 \<and> length (snd st) \<le> MAX_HEADERS + 1 \<and>
                  list_all (\<lambda>l. length l \<le> MAX_LINE) (snd st))
     (header_states [] rfile) \<and>
   (parse_request_line rfile = Inr (rl, rfile1) \<longrightarrow>
      length (fst (readline (MAX_LINE + 1) rfile)) \<le> MAX_LINE) \<and>
   (parse_headers_loop [] rfile = Inr (hs, rfile2) \<longrightarrow>
      length hs \<le> MAX_HEADERS \<and> list_all (\<lambda>l. length l \<le> MAX_LINE) hs)"
proof (intro conjI impI)
  show "length (fst (readline (MAX_LINE + 1) rfile)) \<le> MAX_LINE + 1"
    by (rule length_readline)
next
  have "list_all within (header_states [] rfile)"
    by (rule header_states_within) simp_all
  then show "list_all (\<lambda>st. length (fst st) \<le> MAX_LINE + 1 \<and> length (snd st) \<le> MAX_HEADERS + 1 \<and>
                  list_all (\<lambda>l. length l \<le> MAX_LINE) (snd st)) (header_states [] rfile)"
    by (simp add: within_def [abs_def])
next
  assume "parse_request_line rfile = Inr (rl, rfile1)"
  then show "length (fst (readline (MAX_LINE + 1) rfile)) \<le> MAX_LINE"
    by (auto simp: parse_request_line_def split: prod.splits if_splits)
next
  assume a: "parse_headers_loop [] rfile = Inr (hs, rfile2)"
  have "length hs \<le> MAX_HEADERS \<and> list_all (\<lambda>l. length l \<le> MAX_LINE) hs"
    by (rule loop_accepts_within [OF _ _ a]) simp_all
  then show "length hs \<le> MAX_HEADERS" and "list_all (\<lambda>l. length l \<le> MAX_LINE) hs"
    by simp_all
qed

theorem buffers_bounded_witness:
  "parse_request_line (''GET / HTTP/1.1'' @ [CR, LF] @ ex_100_headers) =
     Inr ((ascii ''GET'', ascii ''/'', ascii ''HTTP/1.1''), ex_100_headers) \<and>
   length (fst (readline (MAX_LINE + 1) (''GET / HTTP/1.1'' @ [CR, LF] @ ex_100_headers)))
     \<le> MAX_LINE \<and>
   parse_headers_loop [] ex_100_headers = Inr (replicate 100 (''a:b'' @ [LF]), ''body'') \<and>
   length (replicate 100 (''a:b'' @ [LF])) \<le> MAX_HEADERS \<and>
   list_all (\<lambda>l. length l \<le> MAX_LINE) (replicate 100 (''a:b'' @ [LF])) \<and>
   list_all (\<lambda>st. length (fst st) \<le> MAX_LINE + 1 \<and> length (snd st) \<le> MAX_HEADERS + 1 \<and>
                  list_all (\<lambda>l. length l \<le> MAX_LINE) (snd st))
     (header_states [] ex_100_headers)"
proof -
  note t1 = buffers_bounded [of "''GET / HTTP/1.1'' @ [CR, LF] @ ex_100_headers"
      "(ascii ''GET'', ascii ''/'', ascii ''HTTP/1.1'')" ex_100_headers]
  note t2 = buffers_bounded [of ex_100_headers _ _ "replicate 100 (''a:b'' @ [LF])" "''body''"]
  have p: "parse_request_line (''GET / HTTP/1.1'' @ [CR, LF] @ ex_100_headers) =
     Inr ((ascii ''GET'', ascii ''/'', ascii ''HTTP/1.1''), ex_100_headers)"
    by (rule prl_get_root)
  from t1 p have r1:
    "length (fst (readline (MAX_LINE + 1) (''GET / HTTP/1.1'' @ [CR, LF] @ ex_100_headers)))
       \<le> MAX_LINE" by blast
  from t2 loop_ex_100 have r2: "length (replicate 100 (''a:b'' @ [LF])) \<le> MAX_HEADERS"
    and r3: "list_all (\<lambda>l. length l \<le> MAX_LINE) (replicate 100 (''a:b'' @ [LF]))"
    by blast+
  from t2 have r4: "list_all (\<lambda>st. length (fst st) \<le> MAX_LINE + 1 \<and>
                  length (snd st) \<le> MAX_HEADERS + 1 \<and>
                  list_all (\<lambda>l. length l \<le> MAX_LINE) (snd st))
     (header_states [] ex_100_headers)" by blast
  show ?thesis
    by (intro conjI) (fact p r1 loop_ex_100 r2 r3 r4)+
qed

text \<open>
  The claim as worded fails: a request line of 65537 bytes leaves 65537 bytes in the line
  buffer, and on 101 header lines the header list holds 101 lines when the error is raised.
\<close>

theorem buffer_holds_more_counterexample:
  "MAX_LINE = 65536 \<and>
   length (fst (readline (MAX_LINE + 1) ex_long_request)) = 65537 \<and>
   MAX_HEADERS = 100 \<and>
   length (snd (last (header_states [] ex_101_headers))) = 101"
proof -
  have "MAX_LINE < length (first_line ex_long_request)"
    by (simp add: ex_long_request_def first_line_no_LF MAX_LINE_def)
  then have "length (fst (readline (Suc MAX_LINE) ex_long_request)) = Suc MAX_LINE"
    by (rule readline_too_long)
  then have a: "length (fst (readline (MAX_LINE + 1) ex_long_request)) = 65537"
    by (simp add: MAX_LINE_def)
  have "length (snd (last (header_states [] ex_101_headers))) = MAX_HEADERS + 1"
    by (rule loop_too_many_last) (simp_all add: loop_ex_101)
  then have b: "length (snd (last (header_states [] ex_101_headers))) = 101"
    by (simp add: MAX_HEADERS_def)
  show ?thesis using a b by (simp add: MAX_LINE_def MAX_HEADERS_def)
qed

section \<open>The Host header\<close>

lemma msg_get_filter:
  "msg_get msg n = (case filter (named n) msg of [] \<Rightarrow> None | h # _ \<Rightarrow> Some (snd h))"
  by (induction msg) (auto simp: named_def)

lemma msg_get_host:
  "msg_get msg (ascii ''Host'') = (case host_values msg of [] \<Rightarrow> None | v # _ \<Rightarrow> Some v)"
  by (simp add: msg_get_filter host_values_def split: list.splits)

lemma parse_request_host:
  assumes "parse_request_line rfile = Inr ((m, t, v), s)" "parse_headers s = Inr (msg, rfile2)"
  shows "parse_request rfile =
     (if host_values msg = [] \<or> hd (host_values msg) = [] then Inl host_missing
      else Inr \<lparr>req_method = m, req_target = t, req_version = v, req_headers = msg,
                req_rfile = rfile2\<rparr>)"
  using assms
  by (simp add: parse_request_def msg_get_host host_missing_def split: list.splits)

lemmas parser_eval =
  parsestr_def headerRE_match_def startswith_def ftext_def header_source_parse_def
  rstrip_crlf_def lower_def lower_cp_def named_def host_values_def decode_latin1_def ascii_def

lemma parse_headers_block:
  assumes "list_all is_line ls" "list_all (\<lambda>l. \<not> is_blank_line l) ls"
    "list_all (\<lambda>l. length l \<le> MAX_LINE) ls" "length ls \<le> MAX_HEADERS" "is_blank_line b"
  shows "parse_headers (concat ls @ b @ r) = Inr (parsestr (decode_latin1 (concat ls)), r)"
proof -
  have hl: "header_lines (concat ls @ b @ r) = ls"
    using assms(1,2,5) by (rule header_lines_concat_blank)
  have ah: "after_headers (concat ls @ b @ r) = r"
    using assms(1,2,5) by (rule after_headers_concat_blank)
  have "parse_headers (concat ls @ b @ r) =
     Inr (parsestr (decode_latin1 (concat (header_lines (concat ls @ b @ r)))),
          after_headers (concat ls @ b @ r))"
    by (rule parse_headers_accept) (simp_all only: hl assms)
  then show ?thesis by (simp only: hl ah)
qed

lemmas block_eval = is_line_def is_blank_line_def MAX_LINE_def MAX_HEADERS_def

lemma headers_two_hosts:
  "parse_headers (concat [''Host:'' @ [CR, LF], ''Host: h'' @ [CR, LF]] @ [CR, LF] @ []) =
     Inr ([(ascii ''Host'', []), (ascii ''Host'', ascii ''h'')], [])"
proof -
  have "parsestr (decode_latin1 (concat [''Host:'' @ [CR, LF], ''Host: h'' @ [CR, LF]])) =
      [(ascii ''Host'', []), (ascii ''Host'', ascii ''h'')]"
    by (simp add: parser_eval)
  then show ?thesis
    by (subst parse_headers_block) (simp_all add: block_eval)
qed

lemma headers_lower_host:
  "parse_headers (concat [''host: h'' @ [CR, LF]] @ [CR, LF] @ ''data'') =
     Inr ([(ascii ''host'', ascii ''h'')], ''data'')"
proof -
  have "parsestr (decode_latin1 (concat [''host: h'' @ [CR, LF]])) = [(ascii ''host'', ascii ''h'')]"
    by (simp add: parser_eval)
  then show ?thesis
    by (subst parse_headers_block) (simp_all add: block_eval)
qed

lemma headers_empty_host:
  "parse_headers (concat [''Host:'' @ [CR, LF]] @ [CR, LF] @ []) = Inr ([(ascii ''Host'', [])], [])"
proof -
  have "parsestr (decode_latin1 (concat [''Host:'' @ [CR, LF]])) = [(ascii ''Host'', [])]"
    by (simp add: parser_eval)
  then show ?thesis
    by (subst parse_headers_block) (simp_all add: block_eval)
qed

lemma headers_host_then_empty:
  "parse_headers (concat [''Host: a'' @ [CR, LF], ''host:'' @ [CR, LF]] @ [CR, LF] @ []) =
     Inr ([(ascii ''Host'', ascii ''a''), (ascii ''host'', [])], [])"
proof -
  have "parsestr (decode_latin1 (concat [''Host: a'' @ [CR, LF], ''host:'' @ [CR, LF]])) =
      [(ascii ''Host'', ascii ''a''), (ascii ''host'', [])]"
    by (simp add: parser_eval)
  then show ?thesis
    by (subst parse_headers_block) (simp_all add: block_eval)
qed

text \<open>
  Claim C10 (as amended). When the request line and the header block are accepted,
  \<^verbatim>\<open>parse_request\<close> raises the 400 error \<open>Host header is missing\<close> if and only if the parsed
  header block has no header named \<open>Host\<close> (compared without regard to case), or the first
  such header has an empty value. The line \<open>host: h\<close> satisfies the requirement; \<open>Host:\<close> with
  an empty value does not.
\<close>

theorem host_check_first_match:
  "(parse_request_line rfile = Inr (rl, s) \<and> parse_headers s = Inr (msg, rfile2) \<longrightarrow>
      (parse_request rfile =
         Inl (HTTPErr \<lparr>err_status = 400, err_reason = ascii ''Bad request'',
                       err_body = Some (ascii ''Host header is missing'')\<rparr>)) =
      (host_values msg = [] \<or> hd (host_values msg) = [])) \<and>
   parse_request (''GET / HTTP/1.1'' @ [CR, LF] @ concat [''host: h'' @ [CR, LF]] @ [CR, LF] @ ''data'') =
     Inr \<lparr>req_method = ascii ''GET'', req_target = ascii ''/'', req_version = ascii ''HTTP/1.1'',
          req_headers = [(ascii ''host'', ascii ''h'')], req_rfile = ''data''\<rparr> \<and>
   parse_request (''GET / HTTP/1.1'' @ [CR, LF] @ concat [''Host:'' @ [CR, LF]] @ [CR, LF] @ []) =
     Inl (HTTPErr \<lparr>err_status = 400, err_reason = ascii ''Bad request'',
                   err_body = Some (ascii ''Host header is missing'')\<rparr>)"
proof (intro conjI impI)
  assume a: "parse_request_line rfile = Inr (rl, s) \<and> parse_headers s = Inr (msg, rfile2)"
  obtain m t v where rl: "rl = (m, t, v)" by (cases rl)
  from a rl have "parse_request rfile =
     (if host_values msg = [] \<or> hd (host_values msg) = [] then Inl host_missing
      else Inr \<lparr>req_method = m, req_target = t, req_version = v, req_headers = msg,
                req_rfile = rfile2\<rparr>)"
    by (intro parse_request_host) auto
  then show "(parse_request rfile =
         Inl (HTTPErr \<lparr>err_status = 400, err_reason = ascii ''Bad request'',
                       err_body = Some (ascii ''Host header is missing'')\<rparr>)) =
      (host_values msg = [] \<or> hd (host_values msg) = [])"
    by (simp add: host_missing_def)
next
  show "parse_request (''GET / HTTP/1.1'' @ [CR, LF] @ concat [''host: h'' @ [CR, LF]] @ [CR, LF] @ ''data'') =
     Inr \<lparr>req_method = ascii ''GET'', req_target = ascii ''/'', req_version = ascii ''HTTP/1.1'',
          req_headers = [(ascii ''host'', ascii ''h'')], req_rfile = ''data''\<rparr>"
    by (subst parse_request_host [OF prl_get_root headers_lower_host])
       (simp add: host_values_def named_def lower_def lower_cp_def ascii_def)
next
  show "parse_request (''GET / HTTP/1.1'' @ [CR, LF] @ concat [''Host:'' @ [CR, LF]] @ [CR, LF] @ []) =
     Inl (HTTPErr \<lparr>err_status = 400, err_reason = ascii ''Bad request'',
                   err_body = Some (ascii ''Host header is missing'')\<rparr>)"
    by (subst parse_request_host [OF prl_get_root headers_empty_host])
       (simp add: host_values_def named_def lower_def lower_cp_def ascii_def host_missing_def)
qed

text \<open>A non-empty Host header followed by an empty one: the first one decides.\<close>

theorem host_check_first_match_witness:
  "parse_request_line
     (''GET / HTTP/1.1'' @ [CR, LF] @
      concat [''Host: a'' @ [CR, LF], ''host:'' @ [CR, LF]] @ [CR, LF] @ []) =
     Inr ((ascii ''GET'', ascii ''/'', ascii ''HTTP/1.1''),
          concat [''Host: a'' @ [CR, LF], ''host:'' @ [CR, LF]] @ [CR, LF] @ []) \<and>
   parse_headers (concat [''Host: a'' @ [CR, LF], ''host:'' @ [CR, LF]] @ [CR, LF] @ []) =
     Inr ([(ascii ''Host'', ascii ''a''), (ascii ''host'', [])], []) \<and>
   host_values [(ascii ''Host'', ascii ''a''), (ascii ''host'', [])] = [ascii ''a'', []] \<and>
   parse_request
     (''GET / HTTP/1.1'' @ [CR, LF] @
      concat [''Host: a'' @ [CR, LF], ''host:'' @ [CR, LF]] @ [CR, LF] @ []) \<noteq>
     Inl (HTTPErr \<lparr>err_status = 400, err_reason = ascii ''Bad request'',
                   err_body = Some (ascii ''Host header is missing'')\<rparr>)"
proof -
  let ?s = "concat [''Host: a'' @ [CR, LF], ''host:'' @ [CR, LF]] @ [CR, LF] @ []"
  let ?msg = "[(ascii ''Host'', ascii ''a''), (ascii ''host'', [])]"
  have p: "parse_request_line (''GET / HTTP/1.1'' @ [CR, LF] @ ?s) =
     Inr ((ascii ''GET'', ascii ''/'', ascii ''HTTP/1.1''), ?s)"
    by (rule prl_get_root)
  have hv: "host_values ?msg = [ascii ''a'', []]"
    by (simp add: host_values_def named_def lower_def lower_cp_def ascii_def)
  from host_check_first_match [of "''GET / HTTP/1.1'' @ [CR, LF] @ ?s"
      "(ascii ''GET'', ascii ''/'', ascii ''HTTP/1.1'')" ?s ?msg "[]"] p headers_host_then_empty
  have "(parse_request (''GET / HTTP/1.1'' @ [CR, LF] @ ?s) =
         Inl (HTTPErr \<lparr>err_status = 400, err_reason = ascii ''Bad request'',
                       err_body = Some (ascii ''Host header is missing'')\<rparr>)) =
      (host_values ?msg = [] \<or> hd (host_values ?msg) = [])"
    by blast
  then have r: "parse_request (''GET / HTTP/1.1'' @ [CR, LF] @ ?s) \<noteq>
     Inl (HTTPErr \<lparr>err_status = 400, err_reason = ascii ''Bad request'',
                   err_body = Some (ascii ''Host header is missing'')\<rparr>)"
    unfolding hv by (simp add: ascii_def)
  show ?thesis
    by (intro conjI) (fact p headers_host_then_empty hv r)+
qed

text \<open>
  The claim as worded fails: the block \<open>Host:\<close>, \<open>Host: h\<close> contains a header named Host with
  a non-empty value, and \<^verbatim>\<open>parse_request\<close> raises all the same, since the lookup returns the
  first header of that name.
\<close>

theorem host_check_counterexample:
  "parse_headers (concat [''Host:'' @ [CR, LF], ''Host: h'' @ [CR, LF]] @ [CR, LF] @ []) =
     Inr ([(ascii ''Host'', []), (ascii ''Host'', ascii ''h'')], []) \<and>
   list_ex (\<lambda>h. lower (fst h) = lower (ascii ''Host'') \<and> snd h \<noteq> [])
     [(ascii ''Host'', []), (ascii ''Host'', ascii ''h'')] \<and>
   parse_request
     (''GET / HTTP/1.1'' @ [CR, LF] @
      concat [''Host:'' @ [CR, LF], ''Host: h'' @ [CR, LF]] @ [CR, LF] @ []) =
     Inl (HTTPErr \<lparr>err_status = 400, err_reason = ascii ''Bad request'',
                   err_body = Some (ascii ''Host header is missing'')\<rparr>)"
proof (intro conjI)
  show "parse_headers (concat [''Host:'' @ [CR, LF], ''Host: h'' @ [CR, LF]] @ [CR, LF] @ []) =
     Inr ([(ascii ''Host'', []), (ascii ''Host'', ascii ''h'')], [])"
    by (rule headers_two_hosts)
  show "list_ex (\<lambda>h. lower (fst h) = lower (ascii ''Host'') \<and> snd h \<noteq> [])
     [(ascii ''Host'', []), (ascii ''Host'', ascii ''h'')]"
    by (simp add: ascii_def)
  show "parse_request
     (''GET / HTTP/1.1'' @ [CR, LF] @
      concat [''Host:'' @ [CR, LF], ''Host: h'' @ [CR, LF]] @ [CR, LF] @ []) =
     Inl (HTTPErr \<lparr>err_status = 400, err_reason = ascii ''Bad request'',
                   err_body = Some (ascii ''Host header is missing'')\<rparr>)"
    by (subst parse_request_host [OF prl_get_root headers_two_hosts])
       (simp add: host_values_def named_def lower_def lower_cp_def ascii_def host_missing_def)
qed

section \<open>Well-formed requests\<close>

lemma header_block_append:
  "is_line l \<Longrightarrow> header_block (l @ s) = header_lines s"
  by (simp add: header_block_def first_line_append)

lemma body_stream_append:
  "is_line l \<Longrightarrow> body_stream (l @ s) = after_headers s"
  by (simp add: body_stream_def first_line_append)

lemma parse_request_well_formed:
  assumes len: "length (first_line rfile) \<le> MAX_LINE"
    and line: "decode_latin1 (first_line rfile) = ws0 @ m @ ws1 @ t @ ws2 @ ascii ''HTTP/1.1'' @ ws3"
    and ws: "blank ws0" "token_ok m" "blank ws1" "ws1 \<noteq> []" "token_ok t" "blank ws2" "ws2 \<noteq> []"
      "blank ws3"
    and hl: "list_all (\<lambda>l. length l \<le> MAX_LINE) (header_block rfile)"
      "length (header_block rfile) \<le> MAX_HEADERS"
    and host: "host_values (parsed_block rfile) \<noteq> []" "hd (host_values (parsed_block rfile)) \<noteq> []"
  shows "parse_request rfile =
     Inr \<lparr>req_method = m, req_target = t, req_version = ascii ''HTTP/1.1'',
          req_headers = parsed_block rfile, req_rfile = body_stream rfile\<rparr>"
proof -
  let ?s = "drop (length (first_line rfile)) rfile"
  have v: "token_ok (ascii ''HTTP/1.1'')" by (simp add: line_eval)
  have "split_ws (decode_latin1 (first_line rfile)) = [m, t, ascii ''HTTP/1.1'']"
    unfolding line using ws(1-7) v ws(8) by (rule split_ws_three)
  with len have p: "parse_request_line rfile = Inr ((m, t, ascii ''HTTP/1.1''), ?s)"
    by (rule prl_ok)
  have h: "parse_headers ?s = Inr (parsed_block rfile, body_stream rfile)"
    unfolding parsed_block_def body_stream_def header_block_def
    using hl by (intro parse_headers_accept) (simp_all add: header_block_def)
  from parse_request_host [OF p h] host show ?thesis by simp
qed

lemma ex_request_line:
  "first_line ex_request = '' GET   /x/y  HTTP/1.1 '' @ [CR, LF]"
  unfolding ex_request_def by (rule first_line_append) (simp add: is_line_def)

lemma ex_request_block:
  "header_block ex_request = [''Host: h'' @ [CR, LF], ''Content-Length: 4'' @ [CR, LF]]"
  unfolding ex_request_def
  by (subst header_block_append, simp add: is_line_def)
     (subst header_lines_concat_blank, simp_all add: block_eval)

lemma ex_request_body: "body_stream ex_request = ''data''"
  unfolding ex_request_def
  by (subst body_stream_append, simp add: is_line_def)
     (subst after_headers_concat_blank, simp_all add: block_eval)

lemma ex_request_parsed:
  "parsed_block ex_request = [(ascii ''Host'', ascii ''h''), (ascii ''Content-Length'', ascii ''4'')]"
  unfolding parsed_block_def ex_request_block by (simp add: parser_eval)








section \<open>What reaches the handler\<close>






lemma ex_request_accepted:
  "parse_request ex_request =
     Inr \<lparr>req_method = ascii ''GET'', req_target = ascii ''/x/y'',
          req_version = ascii ''HTTP/1.1'',
          req_headers = [(ascii ''Host'', ascii ''h''), (ascii ''Content-Length'', ascii ''4'')],
          req_rfile = ''data''\<rparr>"
proof -
  have len: "length (first_line ex_request) \<le> MAX_LINE"
    unfolding ex_request_line by (simp add: MAX_LINE_def)
  have dec: "decode_latin1 (first_line ex_request) =
     ascii '' '' @ ascii ''GET'' @ ascii ''   '' @ ascii ''/x/y'' @ ascii ''  '' @
     ascii ''HTTP/1.1'' @ [32, 13, 10]"
    unfolding ex_request_line by (simp add: decode_latin1_def ascii_def)
  have "parse_request ex_request =
     Inr \<lparr>req_method = ascii ''GET'', req_target = ascii ''/x/y'',
          req_version = ascii ''HTTP/1.1'',
          req_headers = parsed_block ex_request, req_rfile = body_stream ex_request\<rparr>"
    using len dec
  proof (rule parse_request_well_formed)
    show "list_all (\<lambda>l. length l \<le> MAX_LINE) (header_block ex_request)"
      and "length (header_block ex_request) \<le> MAX_HEADERS"
      unfolding ex_request_block by (simp_all add: MAX_LINE_def MAX_HEADERS_def)
    show "host_values (parsed_block ex_request) \<noteq> []"
      and "hd (host_values (parsed_block ex_request)) \<noteq> []"
      unfolding ex_request_parsed
      by (simp_all add: host_values_def named_def lower_def lower_cp_def ascii_def)
  qed (simp_all add: line_eval)
  then show ?thesis unfolding ex_request_parsed ex_request_body .
qed




text \<open>
  A handler response whose second header cannot be encoded: the peer receives the error
  response, and after it the status line and the first header line, which the writer of
  the failed response still held.
\<close>

lemma serve_client_unfinished_write:
  "serve_client
     (\<lambda>req. Inr \<lparr>resp_status = 200, resp_reason = ascii ''OK'',
         resp_headers = Some [(ascii ''A'', PyStr (ascii ''1'')), (ascii ''B'', PyStr [8364])],
         resp_body = None\<rparr>) (\<lambda>e. ascii ''x'') ex_request =
   Inr (''HTTP/1.1 500 Internal Server Error'' @ [CR, LF] @ ''Content-Length: 1'' @ [CR, LF, CR, LF] @ ''x'' @
        ''HTTP/1.1 200 OK'' @ [CR, LF] @ ''A: 1'' @ [CR, LF])"
  by (simp add: serve_client_def ex_request_accepted send_response_def encode_latin1_def wire_eval
      send_error_def error_fallback_def utf8_cp_def unfinished_write_def chunks_before_failure_def
      buffered_write_def BUFFER_SIZE_def)

section \<open>Body access\<close>

lemma msg_get_values:
  "msg_get msg n = (case header_values n msg of [] \<Rightarrow> None | v # _ \<Rightarrow> Some v)"
  by (simp add: msg_get_filter header_values_def split: list.splits)

lemma digits10_digits: "digits10 n \<noteq> [] \<and> list_all is_digit (digits10 n)"
proof (induction n rule: digits10.induct)
  case (1 n)
  show ?case
  proof (cases "n < 10")
    case True
    then show ?thesis by (subst (1 2) digits10.simps) (simp add: is_digit_def)
  next
    case False
    have "n mod 10 < 10" by simp
    then have "is_digit (48 + n mod 10)" unfolding is_digit_def by linarith
    with False 1 show ?thesis by (subst (1 2) digits10.simps) simp
  qed
qed

lemma length_digits10: "n < 10 ^ k \<Longrightarrow> 0 < k \<Longrightarrow> length (digits10 n) \<le> k"
proof (induction n arbitrary: k rule: digits10.induct)
  case (1 n)
  show ?case
  proof (cases "n < 10")
    case True
    with "1.prems" show ?thesis by (subst digits10.simps) simp
  next
    case False
    from "1.prems" obtain j where k: "k = Suc j" by (cases k) auto
    with "1.prems" have "n div 10 < 10 ^ j"
      by (simp add: less_mult_imp_div_less mult.commute)
    moreover from False this have "0 < j" by (cases j) auto
    ultimately have "length (digits10 (n div 10)) \<le> j" using False by (intro "1.IH") auto
    with False k show ?thesis by (subst digits10.simps) simp
  qed
qed

lemma nat_of_digits_snoc:
  "d \<noteq> 95 \<Longrightarrow> nat_of_digits (ds @ [d]) = 10 * nat_of_digits ds + (d - 48)"
  by (simp add: nat_of_digits_def)

lemma nat_of_digits10: "nat_of_digits (digits10 n) = n"
proof (induction n rule: digits10.induct)
  case (1 n)
  show ?case
  proof (cases "n < 10")
    case True
    then show ?thesis by (subst digits10.simps) (simp add: nat_of_digits_def)
  next
    case False
    with 1 have "nat_of_digits (digits10 (n div 10)) = n div 10" by simp
    with False show ?thesis
      by (subst digits10.simps) (simp add: nat_of_digits_snoc)
  qed
qed

lemma digits_ok_digits: "ds \<noteq> [] \<Longrightarrow> list_all is_digit ds \<Longrightarrow> digits_ok ds"
proof (induction ds rule: digits_ok.induct)
  case 1
  then show ?case by simp
next
  case (2 c)
  then show ?case by simp
next
  case (3 c d r)
  from "3.prems" have "is_digit d" by simp
  then have "d \<noteq> 95" by (auto simp: is_digit_def)
  with 3 show ?case by simp
qed

lemma to_ascii_digit: "is_digit c \<Longrightarrow> to_ascii_decimal dec c = c"
  by (simp add: to_ascii_decimal_def is_digit_def)

lemma to_ascii_digits: "list_all is_digit ds \<Longrightarrow> map (to_ascii_decimal dec) ds = ds"
  by (induction ds) (simp_all add: to_ascii_digit)

lemma to_ascii_space: "is_int_space c \<Longrightarrow> is_ascii_space (to_ascii_decimal dec c)"
  by (auto simp: is_int_space_def to_ascii_decimal_def is_ascii_space_def)

lemma to_ascii_spaces:
  "list_all is_int_space l \<Longrightarrow> list_all is_ascii_space (map (to_ascii_decimal dec) l)"
  by (induction l) (simp_all add: to_ascii_space)

lemma is_digit_not_space: "is_digit c \<Longrightarrow> \<not> is_ascii_space c"
  by (auto simp: is_digit_def is_ascii_space_def)

lemma dropWhile_space_digits:
  assumes "list_all is_ascii_space l" "ds \<noteq> []" "list_all is_digit ds"
  shows "dropWhile is_ascii_space (l @ ds @ r) = ds @ r"
proof -
  from assms(2,3) obtain c cs where ds: "ds = c # cs" and c: "is_digit c"
    by (cases ds) auto
  from assms(1) have "dropWhile is_ascii_space (l @ ds @ r) = dropWhile is_ascii_space (ds @ r)"
    by (simp add: list_all_iff dropWhile_append2)
  with ds c show ?thesis by (simp add: is_digit_not_space)
qed

lemma strip_padded:
  assumes "list_all is_ascii_space l" "list_all is_ascii_space r" "ds \<noteq> []"
    "list_all is_digit ds"
  shows "strip (l @ ds @ r) = ds"
proof -
  have a: "dropWhile is_ascii_space (l @ ds @ r) = ds @ r"
    using assms(1,3,4) by (rule dropWhile_space_digits)
  have "dropWhile is_ascii_space (rev r @ rev ds @ []) = rev ds @ []"
    using assms by (intro dropWhile_space_digits) (simp_all add: list_all_iff)
  then have b: "dropWhile is_ascii_space (rev r @ rev ds) = rev ds" by simp
  show ?thesis by (simp add: strip_def a b)
qed

lemma py_int_stripped:
  assumes "strip (map (to_ascii_decimal (unicode_decimal env)) s) = c # cs"
    "c \<noteq> 45" "c \<noteq> 43" "digits_ok (c # cs)"
    "\<not> 640 < length (filter (\<lambda>c. c \<noteq> 95) (c # cs))"
  shows "py_int env s = Inr (int (nat_of_digits (c # cs)))"
  using assms(2-5) unfolding py_int_def assms(1) Let_def by simp

lemma py_int_padded:
  assumes "list_all is_int_space l" "list_all is_int_space r" "n < 10 ^ 19"
  shows "py_int env (l @ digits10 n @ r) = Inr (int n)"
proof -
  let ?tr = "to_ascii_decimal (unicode_decimal env)"
  from digits10_digits [of n] obtain c cs where ds: "digits10 n = c # cs"
    and all: "list_all is_digit (digits10 n)" and ne: "digits10 n \<noteq> []"
    by (cases "digits10 n") auto
  have t: "strip (map ?tr (l @ digits10 n @ r)) = digits10 n"
    using to_ascii_spaces [OF assms(1)] to_ascii_spaces [OF assms(2)] ne all
    by (simp add: to_ascii_digits [OF all] strip_padded)
  from ds all have "is_digit c" by simp
  then have c: "c \<noteq> 45" "c \<noteq> 43" by (auto simp: is_digit_def)
  have ok: "digits_ok (c # cs)"
    using ne all by (simp add: ds [symmetric] digits_ok_digits)
  have nd: "nat_of_digits (c # cs) = n"
    using nat_of_digits10 [of n] by (simp add: ds)
  have "length (digits10 n) \<le> 19" using assms(3) by (rule length_digits10) simp
  then have "length (digits10 n) \<le> 640" by simp
  moreover have "length (filter (\<lambda>c. c \<noteq> 95) (digits10 n)) \<le> length (digits10 n)"
    by (rule length_filter_le)
  ultimately have len: "\<not> 640 < length (filter (\<lambda>c. c \<noteq> 95) (c # cs))"
    by (simp add: ds)
  from t ds have t': "strip (map ?tr (l @ digits10 n @ r)) = c # cs" by simp
  from py_int_stripped [OF t' c ok len] nd show ?thesis by simp
qed

lemma body_absent:
  "header_values (ascii ''Content-Length'') (req_headers req) = [] \<Longrightarrow>
   body env req = Inr (None, req)"
  by (simp add: body_def msg_get_values)

lemma body_present:
  assumes "header_values (ascii ''Content-Length'') (req_headers req) = sz # others"
    "sz \<noteq> []" "py_int env sz = Inr (int n)" "n \<le> 2 ^ 63 - 34" "n \<le> alloc_max env"
  shows "body env req =
     Inr (Some (take n (req_rfile req)), req\<lparr>req_rfile := drop n (req_rfile req)\<rparr>)"
proof -
  have "read (alloc_max env) (int n) (req_rfile req) =
      Inr (take n (req_rfile req), drop n (req_rfile req))"
    using assms(4,5) by (simp add: read_def)
  with assms(1-3) show ?thesis by (simp add: body_def msg_get_values)
qed

text \<open>
  Claim C5 (as amended). \<^verbatim>\<open>Request.body\<close> returns \<open>None\<close> when the request has no
  Content-Length header. When the Content-Length header (the first of that name) is a text
  that \<^verbatim>\<open>int\<close> reads as \<open>n\<close>, with \<open>n\<close> at most 2^63 - 34 and at most what can be allocated, it
  returns the next \<open>n\<close> bytes of the body stream, or all that is left when the stream ends
  before, and the stream advances past them; for \<open>n = 0\<close> the result is the empty byte
  string, not \<open>None\<close>. The decimal text of \<open>n\<close>, with whitespace around it or without, is read
  as \<open>n\<close>.
\<close>

theorem body_content_length:
  "(header_values (ascii ''Content-Length'') (req_headers req) = [] \<longrightarrow>
      body env req = Inr (None, req)) \<and>
   (header_values (ascii ''Content-Length'') (req_headers req) = sz # others \<and> sz \<noteq> [] \<and>
    py_int env sz = Inr (int n) \<and> n \<le> 2 ^ 63 - 34 \<and> n \<le> alloc_max env \<longrightarrow>
      body env req =
        Inr (Some (take n (req_rfile req)), req\<lparr>req_rfile := drop n (req_rfile req)\<rparr>) \<and>
      length (take n (req_rfile req)) = min n (length (req_rfile req))) \<and>
   (header_values (ascii ''Content-Length'') (req_headers req) = sz # others \<and> sz \<noteq> [] \<and>
    py_int env sz = Inr 0 \<longrightarrow>
      body env req = Inr (Some [], req)) \<and>
   (list_all is_int_space l \<and> list_all is_int_space r \<and> k < 2 ^ 63 \<longrightarrow>
      py_int env (l @ digits10 k @ r) = Inr (int k) \<and> l @ digits10 k @ r \<noteq> [])"
proof (intro conjI impI)
  assume "header_values (ascii ''Content-Length'') (req_headers req) = []"
  then show "body env req = Inr (None, req)" by (rule body_absent)
next
  assume "header_values (ascii ''Content-Length'') (req_headers req) = sz # others \<and> sz \<noteq> [] \<and>
    py_int env sz = Inr (int n) \<and> n \<le> 2 ^ 63 - 34 \<and> n \<le> alloc_max env"
  then show "body env req =
        Inr (Some (take n (req_rfile req)), req\<lparr>req_rfile := drop n (req_rfile req)\<rparr>)"
    by (intro body_present) auto
next
  show "length (take n (req_rfile req)) = min n (length (req_rfile req))"
    by (simp add: min.commute)
next
  assume a: "header_values (ascii ''Content-Length'') (req_headers req) = sz # others \<and>
    sz \<noteq> [] \<and> py_int env sz = Inr 0"
  have "body env req =
        Inr (Some (take 0 (req_rfile req)), req\<lparr>req_rfile := drop 0 (req_rfile req)\<rparr>)"
    using a by (intro body_present) auto
  then show "body env req = Inr (Some [], req)" by simp
next
  assume a: "list_all is_int_space l \<and> list_all is_int_space r \<and> k < 2 ^ 63"
  then have "k < 10 ^ 19" by simp
  with a show "py_int env (l @ digits10 k @ r) = Inr (int k)"
    by (intro py_int_padded) auto
next
  from digits10_digits [of k] show "l @ digits10 k @ r \<noteq> []" by simp
qed

theorem body_content_length_witness:
  "header_values (ascii ''Content-Length'')
     (req_headers \<lparr>req_method = ascii ''GET'', req_target = ascii ''/'',
        req_version = ascii ''HTTP/1.1'', req_headers = [(ascii ''Host'', ascii ''h'')],
        req_rfile = ''rest''\<rparr>) = [] \<and>
   body default_interp \<lparr>req_method = ascii ''GET'', req_target = ascii ''/'',
        req_version = ascii ''HTTP/1.1'', req_headers = [(ascii ''Host'', ascii ''h'')],
        req_rfile = ''rest''\<rparr> =
     Inr (None, \<lparr>req_method = ascii ''GET'', req_target = ascii ''/'',
        req_version = ascii ''HTTP/1.1'', req_headers = [(ascii ''Host'', ascii ''h'')],
        req_rfile = ''rest''\<rparr>) \<and>
   list_all is_int_space [32] \<and> (4::nat) < 2 ^ 63 \<and>
   py_int default_interp ([] @ digits10 4 @ [32]) = Inr (int 4) \<and>
   header_values (ascii ''Content-Length'')
     (req_headers \<lparr>req_method = ascii ''PUT'', req_target = ascii ''/f'',
        req_version = ascii ''HTTP/1.1'',
        req_headers = [(ascii ''Host'', ascii ''h''), (ascii ''content-length'', ascii ''4 '')],
        req_rfile = ''data and more''\<rparr>) = ([] @ digits10 4 @ [32]) # [] \<and>
   4 \<le> alloc_max default_interp \<and>
   body default_interp \<lparr>req_method = ascii ''PUT'', req_target = ascii ''/f'',
        req_version = ascii ''HTTP/1.1'',
        req_headers = [(ascii ''Host'', ascii ''h''), (ascii ''content-length'', ascii ''4 '')],
        req_rfile = ''data and more''\<rparr> =
     Inr (Some ''data'', \<lparr>req_method = ascii ''PUT'', req_target = ascii ''/f'',
        req_version = ascii ''HTTP/1.1'',
        req_headers = [(ascii ''Host'', ascii ''h''), (ascii ''content-length'', ascii ''4 '')],
        req_rfile = '' and more''\<rparr>) \<and>
   py_int default_interp ([] @ digits10 0 @ []) = Inr 0 \<and>
   body default_interp \<lparr>req_method = ascii ''PUT'', req_target = ascii ''/f'',
        req_version = ascii ''HTTP/1.1'',
        req_headers = [(ascii ''Content-Length'', ascii ''0'')],
        req_rfile = ''next''\<rparr> =
     Inr (Some [], \<lparr>req_method = ascii ''PUT'', req_target = ascii ''/f'',
        req_version = ascii ''HTTP/1.1'',
        req_headers = [(ascii ''Content-Length'', ascii ''0'')],
        req_rfile = ''next''\<rparr>)"
proof -
  let ?r1 = "\<lparr>req_method = ascii ''GET'', req_target = ascii ''/'',
        req_version = ascii ''HTTP/1.1'', req_headers = [(ascii ''Host'', ascii ''h'')],
        req_rfile = ''rest''\<rparr>"
  let ?r2 = "\<lparr>req_method = ascii ''PUT'', req_target = ascii ''/f'',
        req_version = ascii ''HTTP/1.1'',
        req_headers = [(ascii ''Host'', ascii ''h''), (ascii ''content-length'', ascii ''4 '')],
        req_rfile = ''data and more''\<rparr>"
  let ?r3 = "\<lparr>req_method = ascii ''PUT'', req_target = ascii ''/f'',
        req_version = ascii ''HTTP/1.1'',
        req_headers = [(ascii ''Content-Length'', ascii ''0'')],
        req_rfile = ''next''\<rparr>"
  have h1: "header_values (ascii ''Content-Length'') (req_headers ?r1) = []"
    by (simp add: header_values_def named_def lower_def lower_cp_def ascii_def)
  have h2: "header_values (ascii ''Content-Length'') (req_headers ?r2) =
      ([] @ digits10 4 @ [32]) # []"
    by (simp add: header_values_def named_def lower_def lower_cp_def ascii_def digits10.simps)
  have h3: "header_values (ascii ''Content-Length'') (req_headers ?r3) =
      ([] @ digits10 0 @ []) # []"
    by (simp add: header_values_def named_def lower_def lower_cp_def ascii_def digits10.simps)
  have sp: "list_all is_int_space [32]"
    by (simp add: is_int_space_def is_ascii_space_def)
  have lt: "(4::nat) < 2 ^ 63" by simp
  have al: "4 \<le> alloc_max default_interp" by (simp add: default_interp_def)
  from body_content_length [of ?r1 default_interp] h1
  have b1: "body default_interp ?r1 = Inr (None, ?r1)" by blast
  from body_content_length [where l = "[]" and r = "[32]" and k = 4 and env = default_interp]
    sp lt
  have p2: "py_int default_interp ([] @ digits10 4 @ [32]) = Inr (int 4)" by simp
  have ne2: "[] @ digits10 4 @ [32] \<noteq> ([]::ustr)" by simp
  have le2: "(4::nat) \<le> 2 ^ 63 - 34" by simp
  from body_content_length [where req = ?r2 and env = default_interp
      and sz = "[] @ digits10 4 @ [32]" and others = "[]" and n = 4] h2 ne2 p2 le2 al
  have "body default_interp ?r2 =
      Inr (Some (take 4 (req_rfile ?r2)), ?r2\<lparr>req_rfile := drop 4 (req_rfile ?r2)\<rparr>)"
    by blast
  then have b2: "body default_interp ?r2 =
     Inr (Some ''data'', \<lparr>req_method = ascii ''PUT'', req_target = ascii ''/f'',
        req_version = ascii ''HTTP/1.1'',
        req_headers = [(ascii ''Host'', ascii ''h''), (ascii ''content-length'', ascii ''4 '')],
        req_rfile = '' and more''\<rparr>)" by simp
  from body_content_length [where l = "[]" and r = "[]" and k = 0 and env = default_interp]
  have p3: "py_int default_interp ([] @ digits10 0 @ []) = Inr 0" by simp
  have ne3: "[] @ digits10 0 @ [] \<noteq> ([]::ustr)"
    using digits10_digits [of 0] by simp
  from body_content_length [where req = ?r3 and env = default_interp
      and sz = "[] @ digits10 0 @ []" and others = "[]"] h3 ne3 p3
  have b3: "body default_interp ?r3 = Inr (Some [], ?r3)" by blast
  show ?thesis
    by (intro conjI) (fact h1 b1 sp lt p2 h2 al b2 p3 b3)+
qed

text \<open>
  The claim as worded fails. With \<open>Content-Length: 5\<close> and a stream that ends after three
  bytes, three bytes are returned, not five. With \<open>Content-Length: 9223372036854775808\<close> no
  bytes are returned: \<^verbatim>\<open>read\<close> raises \<^verbatim>\<open>OverflowError\<close>.
\<close>

theorem body_short_stream_counterexample:
  "py_int default_interp (ascii ''5'') = Inr 5 \<and>
   body default_interp \<lparr>req_method = ascii ''PUT'', req_target = ascii ''/f'',
        req_version = ascii ''HTTP/1.1'',
        req_headers = [(ascii ''Content-Length'', ascii ''5'')],
        req_rfile = ''abc''\<rparr> =
     Inr (Some ''abc'', \<lparr>req_method = ascii ''PUT'', req_target = ascii ''/f'',
        req_version = ascii ''HTTP/1.1'',
        req_headers = [(ascii ''Content-Length'', ascii ''5'')],
        req_rfile = []\<rparr>) \<and>
   length ''abc'' < (5::nat) \<and>
   py_int default_interp (ascii ''9223372036854775808'') = Inr 9223372036854775808 \<and>
   body default_interp \<lparr>req_method = ascii ''PUT'', req_target = ascii ''/f'',
        req_version = ascii ''HTTP/1.1'',
        req_headers = [(ascii ''Content-Length'', ascii ''9223372036854775808'')],
        req_rfile = ''abcdef''\<rparr> = Inl OverflowError"
proof -
  let ?r1 = "\<lparr>req_method = ascii ''PUT'', req_target = ascii ''/f'',
        req_version = ascii ''HTTP/1.1'',
        req_headers = [(ascii ''Content-Length'', ascii ''5'')],
        req_rfile = ''abc''\<rparr>"
  let ?r2 = "\<lparr>req_method = ascii ''PUT'', req_target = ascii ''/f'',
        req_version = ascii ''HTTP/1.1'',
        req_headers = [(ascii ''Content-Length'', ascii ''9223372036854775808'')],
        req_rfile = ''abcdef''\<rparr>"
  have d5: "digits10 5 = ascii ''5''" by (simp add: digits10.simps ascii_def)
  have dbig: "digits10 9223372036854775808 = ascii ''9223372036854775808''"
    by (simp add: digits10.simps ascii_def)
  have "py_int default_interp ([] @ digits10 5 @ []) = Inr (int 5)"
    by (rule py_int_padded) simp_all
  then have p5: "py_int default_interp (ascii ''5'') = Inr 5" by (simp add: d5)
  have "py_int default_interp ([] @ digits10 9223372036854775808 @ []) =
      Inr (int 9223372036854775808)"
    by (rule py_int_padded) simp_all
  then have pbig: "py_int default_interp (ascii ''9223372036854775808'') =
      Inr 9223372036854775808" by (simp add: dbig)
  have h1: "header_values (ascii ''Content-Length'') (req_headers ?r1) = ascii ''5'' # []"
    by (simp add: header_values_def named_def lower_def lower_cp_def ascii_def)
  have "body default_interp ?r1 =
      Inr (Some (take 5 (req_rfile ?r1)), ?r1\<lparr>req_rfile := drop 5 (req_rfile ?r1)\<rparr>)"
  proof (rule body_present [OF h1])
    show "py_int default_interp (ascii ''5'') = Inr (int 5)" using p5 by simp
  qed (simp_all add: default_interp_def)
  then have b1: "body default_interp ?r1 =
     Inr (Some ''abc'', \<lparr>req_method = ascii ''PUT'', req_target = ascii ''/f'',
        req_version = ascii ''HTTP/1.1'',
        req_headers = [(ascii ''Content-Length'', ascii ''5'')],
        req_rfile = []\<rparr>)" by simp
  have h2: "header_values (ascii ''Content-Length'') (req_headers ?r2) =
      ascii ''9223372036854775808'' # []"
    by (simp add: header_values_def named_def lower_def lower_cp_def ascii_def)
  have b2: "body default_interp ?r2 = Inl OverflowError"
    using h2 by (simp add: body_def msg_get_values pbig read_def)
  have l: "length ''abc'' < (5::nat)" by simp
  show ?thesis
    by (intro conjI) (fact p5 b1 l pbig b2)+
qed

section \<open>The error mapper\<close>

lemma send_error_other:
  "\<not> is_http_error err \<Longrightarrow> encode_utf8 (str_of err) = Inr enc \<Longrightarrow>
   send_error str_of err =
     send_response \<lparr>resp_status = 500, resp_reason = ascii ''Internal Server Error'',
        resp_headers = Some [(ascii ''Content-Length'', PyInt (int (length enc)))],
        resp_body = Some enc\<rparr>"
  by (cases err) (simp_all add: send_error_def error_fallback_def)

lemma send_error_unencodable:
  "encode_utf8 (error_text e) = Inl x \<Longrightarrow> encode_utf8 (str_of (HTTPErr e)) = Inr enc \<Longrightarrow>
   send_error str_of (HTTPErr e) =
     send_response \<lparr>resp_status = 500, resp_reason = ascii ''Internal Server Error'',
        resp_headers = Some [(ascii ''Content-Length'', PyInt (int (length enc)))],
        resp_body = Some enc\<rparr>"
  by (simp add: send_error_def error_fallback_def error_text_def)

text \<open>
  Claim C7 (as amended). For a protocol error whose text can be encoded in UTF-8, the
  response built has the status and the reason of the error, the body is the encoding of
  the body text when that is present and not empty and of the reason phrase otherwise, and
  the only header is Content-Length with the length of the encoded body. For a value that
  is not a protocol error, and for a protocol error whose text cannot be encoded, the
  response is 500 \<open>Internal Server Error\<close> with the encoded textual description of the
  value as its body.
\<close>

theorem send_error_maps:
  "(err_body e = None \<and> encode_utf8 (err_reason e) = Inr enc \<longrightarrow>
      send_error str_of (HTTPErr e) =
        send_response \<lparr>resp_status = err_status e, resp_reason = err_reason e,
           resp_headers = Some [(ascii ''Content-Length'', PyInt (int (length enc)))],
           resp_body = Some enc\<rparr>) \<and>
   (err_body e = Some b \<and> b \<noteq> [] \<and> encode_utf8 b = Inr enc \<longrightarrow>
      send_error str_of (HTTPErr e) =
        send_response \<lparr>resp_status = err_status e, resp_reason = err_reason e,
           resp_headers = Some [(ascii ''Content-Length'', PyInt (int (length enc)))],
           resp_body = Some enc\<rparr>) \<and>
   (err_body e = Some [] \<and> encode_utf8 (err_reason e) = Inr enc \<longrightarrow>
      send_error str_of (HTTPErr e) =
        send_response \<lparr>resp_status = err_status e, resp_reason = err_reason e,
           resp_headers = Some [(ascii ''Content-Length'', PyInt (int (length enc)))],
           resp_body = Some enc\<rparr>) \<and>
   (\<not> is_http_error err \<and> encode_utf8 (str_of err) = Inr enc \<longrightarrow>
      send_error str_of err =
        send_response \<lparr>resp_status = 500, resp_reason = ascii ''Internal Server Error'',
           resp_headers = Some [(ascii ''Content-Length'', PyInt (int (length enc)))],
           resp_body = Some enc\<rparr>) \<and>
   (encode_utf8 (error_text e) = Inl x \<and> encode_utf8 (str_of (HTTPErr e)) = Inr enc \<longrightarrow>
      send_error str_of (HTTPErr e) =
        send_response \<lparr>resp_status = 500, resp_reason = ascii ''Internal Server Error'',
           resp_headers = Some [(ascii ''Content-Length'', PyInt (int (length enc)))],
           resp_body = Some enc\<rparr>)"
proof (intro conjI impI)
  assume "err_body e = None \<and> encode_utf8 (err_reason e) = Inr enc"
  then have "encode_utf8 (error_text e) = Inr enc" by (simp add: error_text_def)
  then show "send_error str_of (HTTPErr e) =
        send_response \<lparr>resp_status = err_status e, resp_reason = err_reason e,
           resp_headers = Some [(ascii ''Content-Length'', PyInt (int (length enc)))],
           resp_body = Some enc\<rparr>" by (rule send_error_http)
next
  assume "err_body e = Some b \<and> b \<noteq> [] \<and> encode_utf8 b = Inr enc"
  then have "encode_utf8 (error_text e) = Inr enc" by (simp add: error_text_def)
  then show "send_error str_of (HTTPErr e) =
        send_response \<lparr>resp_status = err_status e, resp_reason = err_reason e,
           resp_headers = Some [(ascii ''Content-Length'', PyInt (int (length enc)))],
           resp_body = Some enc\<rparr>" by (rule send_error_http)
next
  assume "err_body e = Some [] \<and> encode_utf8 (err_reason e) = Inr enc"
  then have "encode_utf8 (error_text e) = Inr enc" by (simp add: error_text_def)
  then show "send_error str_of (HTTPErr e) =
        send_response \<lparr>resp_status = err_status e, resp_reason = err_reason e,
           resp_headers = Some [(ascii ''Content-Length'', PyInt (int (length enc)))],
           resp_body = Some enc\<rparr>" by (rule send_error_http)
next
  assume "\<not> is_http_error err \<and> encode_utf8 (str_of err) = Inr enc"
  then show "send_error str_of err =
        send_response \<lparr>resp_status = 500, resp_reason = ascii ''Internal Server Error'',
           resp_headers = Some [(ascii ''Content-Length'', PyInt (int (length enc)))],
           resp_body = Some enc\<rparr>" by (simp add: send_error_other)
next
  assume "encode_utf8 (error_text e) = Inl x \<and> encode_utf8 (str_of (HTTPErr e)) = Inr enc"
  then show "send_error str_of (HTTPErr e) =
        send_response \<lparr>resp_status = 500, resp_reason = ascii ''Internal Server Error'',
           resp_headers = Some [(ascii ''Content-Length'', PyInt (int (length enc)))],
           resp_body = Some enc\<rparr>" by (auto intro: send_error_unencodable)
qed

lemma wire_404_reason:
  "send_response \<lparr>resp_status = 404, resp_reason = ascii ''Not Found'',
       resp_headers = Some [(ascii ''Content-Length'', PyInt 9)],
       resp_body = Some ''Not Found''\<rparr> =
     Inr (''HTTP/1.1 404 Not Found'' @ [CR, LF] @ ''Content-Length: 9'' @ [CR, LF, CR, LF] @
          ''Not Found'')"
proof -
  let ?r = "\<lparr>resp_status = 404, resp_reason = ascii ''Not Found'',
       resp_headers = Some [(ascii ''Content-Length'', PyInt 9)],
       resp_body = Some ''Not Found''\<rparr>"
  have "encodable ?r" by (simp add: wire_eval)
  then have "send_response ?r = Inr (serialized ?r)" by (rule send_response_ok)
  moreover have "serialized ?r = ''HTTP/1.1 404 Not Found'' @ [CR, LF] @ ''Content-Length: 9'' @
      [CR, LF, CR, LF] @ ''Not Found''"
    by (simp add: wire_eval)
  ultimately show ?thesis by simp
qed

lemma wire_404_empty:
  "send_response \<lparr>resp_status = 404, resp_reason = ascii ''Not Found'',
       resp_headers = Some [(ascii ''Content-Length'', PyInt 0)],
       resp_body = Some []\<rparr> =
     Inr (''HTTP/1.1 404 Not Found'' @ [CR, LF] @ ''Content-Length: 0'' @ [CR, LF, CR, LF])"
proof -
  let ?r = "\<lparr>resp_status = 404, resp_reason = ascii ''Not Found'',
       resp_headers = Some [(ascii ''Content-Length'', PyInt 0)],
       resp_body = Some []\<rparr>"
  have "encodable ?r" by (simp add: wire_eval)
  then have "send_response ?r = Inr (serialized ?r)" by (rule send_response_ok)
  moreover have "serialized ?r = ''HTTP/1.1 404 Not Found'' @ [CR, LF] @ ''Content-Length: 0'' @
      [CR, LF, CR, LF]"
    by (simp add: wire_eval)
  ultimately show ?thesis by simp
qed

lemma utf8_not_found: "encode_utf8 (ascii ''Not Found'') = Inr ''Not Found''"
  by (rule utf8_ascii) simp

lemma utf8_e_acute: "encode_utf8 [233] = Inr [CHR 0xC3, CHR 0xA9]"
  by (simp add: utf8_cp_def char_of_eq_iff)

lemma utf8_surrogate: "encode_utf8 [0xD800] = Inl UnicodeEncodeError"
  by (simp add: utf8_cp_def)

theorem send_error_maps_witness:
  "encode_utf8 (ascii ''Not Found'') = Inr ''Not Found'' \<and>
   send_error (\<lambda>e. ascii ''boom'')
     (HTTPErr \<lparr>err_status = 404, err_reason = ascii ''Not Found'', err_body = None\<rparr>) =
     Inr (''HTTP/1.1 404 Not Found'' @ [CR, LF] @ ''Content-Length: 9'' @ [CR, LF, CR, LF] @
          ''Not Found'') \<and>
   encode_utf8 [233] = Inr [CHR 0xC3, CHR 0xA9] \<and>
   send_error (\<lambda>e. ascii ''boom'')
     (HTTPErr \<lparr>err_status = 404, err_reason = ascii ''Not Found'', err_body = Some [233]\<rparr>) =
     send_response \<lparr>resp_status = 404, resp_reason = ascii ''Not Found'',
        resp_headers = Some [(ascii ''Content-Length'', PyInt 2)],
        resp_body = Some [CHR 0xC3, CHR 0xA9]\<rparr> \<and>
   send_error (\<lambda>e. ascii ''boom'')
     (HTTPErr \<lparr>err_status = 404, err_reason = ascii ''Not Found'', err_body = Some []\<rparr>) =
     Inr (''HTTP/1.1 404 Not Found'' @ [CR, LF] @ ''Content-Length: 9'' @ [CR, LF, CR, LF] @
          ''Not Found'') \<and>
   \<not> is_http_error (OtherExc (ascii ''KeyError'')) \<and>
   encode_utf8 (ascii ''boom'') = Inr ''boom'' \<and>
   send_error (\<lambda>e. ascii ''boom'') (OtherExc (ascii ''KeyError'')) =
     send_response \<lparr>resp_status = 500, resp_reason = ascii ''Internal Server Error'',
        resp_headers = Some [(ascii ''Content-Length'', PyInt 4)],
        resp_body = Some ''boom''\<rparr> \<and>
   encode_utf8
     (error_text \<lparr>err_status = 404, err_reason = ascii ''Not Found'', err_body = Some [0xD800]\<rparr>) =
     Inl UnicodeEncodeError \<and>
   send_error (\<lambda>e. ascii ''boom'')
     (HTTPErr \<lparr>err_status = 404, err_reason = ascii ''Not Found'', err_body = Some [0xD800]\<rparr>) =
     send_response \<lparr>resp_status = 500, resp_reason = ascii ''Internal Server Error'',
        resp_headers = Some [(ascii ''Content-Length'', PyInt 4)],
        resp_body = Some ''boom''\<rparr>"
proof -
  let ?s = "\<lambda>e::exc. ascii ''boom''"
  let ?e1 = "\<lparr>err_status = 404, err_reason = ascii ''Not Found'', err_body = None\<rparr>"
  let ?e2 = "\<lparr>err_status = 404, err_reason = ascii ''Not Found'', err_body = Some [233]\<rparr>"
  let ?e3 = "\<lparr>err_status = 404, err_reason = ascii ''Not Found'', err_body = Some []\<rparr>"
  let ?e5 = "\<lparr>err_status = 404, err_reason = ascii ''Not Found'', err_body = Some [0xD800]\<rparr>"
  have boom: "encode_utf8 (ascii ''boom'') = Inr ''boom''" by (rule utf8_ascii) simp
  from send_error_maps [of ?e1 "''Not Found''" ?s] utf8_not_found
  have "send_error ?s (HTTPErr ?e1) =
     send_response \<lparr>resp_status = 404, resp_reason = ascii ''Not Found'',
        resp_headers = Some [(ascii ''Content-Length'', PyInt 9)],
        resp_body = Some ''Not Found''\<rparr>" by simp
  then have r1: "send_error ?s (HTTPErr ?e1) =
     Inr (''HTTP/1.1 404 Not Found'' @ [CR, LF] @ ''Content-Length: 9'' @ [CR, LF, CR, LF] @
          ''Not Found'')" by (simp only: wire_404_reason)
  from send_error_maps [of ?e2 "[CHR 0xC3, CHR 0xA9]" ?s "[233]"] utf8_e_acute
  have r2: "send_error ?s (HTTPErr ?e2) =
     send_response \<lparr>resp_status = 404, resp_reason = ascii ''Not Found'',
        resp_headers = Some [(ascii ''Content-Length'', PyInt 2)],
        resp_body = Some [CHR 0xC3, CHR 0xA9]\<rparr>" by simp
  from send_error_maps [of ?e3 "''Not Found''" ?s] utf8_not_found
  have "send_error ?s (HTTPErr ?e3) =
     send_response \<lparr>resp_status = 404, resp_reason = ascii ''Not Found'',
        resp_headers = Some [(ascii ''Content-Length'', PyInt 9)],
        resp_body = Some ''Not Found''\<rparr>" by simp
  then have r3: "send_error ?s (HTTPErr ?e3) =
     Inr (''HTTP/1.1 404 Not Found'' @ [CR, LF] @ ''Content-Length: 9'' @ [CR, LF, CR, LF] @
          ''Not Found'')" by (simp only: wire_404_reason)
  have o: "\<not> is_http_error (OtherExc (ascii ''KeyError''))" by simp
  from send_error_maps [of _ "''boom''" ?s _ "OtherExc (ascii ''KeyError'')"] o boom
  have r4: "send_error ?s (OtherExc (ascii ''KeyError'')) =
     send_response \<lparr>resp_status = 500, resp_reason = ascii ''Internal Server Error'',
        resp_headers = Some [(ascii ''Content-Length'', PyInt 4)],
        resp_body = Some ''boom''\<rparr>" by simp
  have u5: "encode_utf8 (error_text ?e5) = Inl UnicodeEncodeError"
    by (simp add: error_text_def utf8_cp_def)
  from send_error_maps [of ?e5 "''boom''" ?s _ _ UnicodeEncodeError] u5 boom
  have r5: "send_error ?s (HTTPErr ?e5) =
     send_response \<lparr>resp_status = 500, resp_reason = ascii ''Internal Server Error'',
        resp_headers = Some [(ascii ''Content-Length'', PyInt 4)],
        resp_body = Some ''boom''\<rparr>" by simp
  show ?thesis
    by (intro conjI) (fact utf8_not_found r1 utf8_e_acute r2 r3 o boom r4 u5 r5)+
qed

text \<open>
  The claim as worded fails: a protocol error whose body text is present and empty is
  answered with the reason phrase as body and Content-Length 9, not with the encoding of
  its body text, the empty body with Content-Length 0.
\<close>

theorem send_error_empty_body_counterexample:
  "err_body \<lparr>err_status = 404, err_reason = ascii ''Not Found'', err_body = Some []\<rparr> = Some [] \<and>
   encode_utf8 [] = Inr [] \<and>
   send_error (\<lambda>e. [])
     (HTTPErr \<lparr>err_status = 404, err_reason = ascii ''Not Found'', err_body = Some []\<rparr>) =
     Inr (''HTTP/1.1 404 Not Found'' @ [CR, LF] @ ''Content-Length: 9'' @ [CR, LF, CR, LF] @
          ''Not Found'') \<and>
   send_response \<lparr>resp_status = 404, resp_reason = ascii ''Not Found'',
       resp_headers = Some [(ascii ''Content-Length'', PyInt 0)],
       resp_body = Some []\<rparr> =
     Inr (''HTTP/1.1 404 Not Found'' @ [CR, LF] @ ''Content-Length: 0'' @ [CR, LF, CR, LF]) \<and>
   send_error (\<lambda>e. [])
     (HTTPErr \<lparr>err_status = 404, err_reason = ascii ''Not Found'', err_body = Some []\<rparr>) \<noteq>
   send_response \<lparr>resp_status = 404, resp_reason = ascii ''Not Found'',
       resp_headers = Some [(ascii ''Content-Length'', PyInt 0)],
       resp_body = Some []\<rparr>"
proof -
  let ?e = "\<lparr>err_status = 404, err_reason = ascii ''Not Found'', err_body = Some []\<rparr>"
  have "encode_utf8 (error_text ?e) = Inr ''Not Found''"
    using utf8_not_found by (simp add: error_text_def)
  from send_error_http [OF this, of "\<lambda>e. []"]
  have a: "send_error (\<lambda>e. []) (HTTPErr ?e) =
     Inr (''HTTP/1.1 404 Not Found'' @ [CR, LF] @ ''Content-Length: 9'' @ [CR, LF, CR, LF] @
          ''Not Found'')"
    by (simp add: wire_404_reason)
  show ?thesis
    unfolding a wire_404_empty by simp
qed

end
